theory Spec2Isabelle
  imports Main "HOL-Library.Word"
begin

section \<open>The MQTT client sketch (Arduino/MQTT\_Client/MQTT\_Client.ino)\<close>

text \<open>
  The sketch is a sequential program over two globals, one output pin and three
  libraries (Serial, WiFiNINA, PubSubClient). The model passes one record, the
  \<open>world\<close>, through every function. It holds the two globals, the level of the
  LED pin, the link state of the MQTT client, a script of what the hardware and
  the libraries answer (the k-th call of a primitive gets the k-th entry of its
  script), and the trace of every externally visible action in program order.

  C \<open>int\<close> values are HOL integers: \<open>analogRead\<close> of a 10 bit converter yields
  0..1023, so the only arithmetic of the sketch, \<open>currentA0Value - previousA0Value\<close>,
  stays far inside a 16 bit \<open>int\<close>. A char array is a \<open>string\<close>; the C string it
  holds is the part before the first NUL byte (\<open>cstr\<close>).
\<close>

subsection \<open>Constants of secrets.h and of the Arduino core\<close>

definition WIFI_SSID :: string where "WIFI_SSID = ''your_ssid''"
definition WIFI_PASSWORD :: string where "WIFI_PASSWORD = ''your_password''"
definition MQTT_BROKER_IP :: string where "MQTT_BROKER_IP = ''000.000.000.000''"
definition MQTT_BROKER_PORT :: "16 word" where "MQTT_BROKER_PORT = 1883"
definition MQTT_BROKER_USERNAME :: string where "MQTT_BROKER_USERNAME = ''your_username''"
definition MQTT_BROKER_PASSWORD :: string where "MQTT_BROKER_PASSWORD = ''your_password''"
definition MQTT_CLIENT_ID :: string where "MQTT_CLIENT_ID = ''Arduino''"

definition DEBUG :: bool where "DEBUG = True"

definition WiFiSSID :: string where "WiFiSSID = WIFI_SSID"
definition WiFiPassword :: string where "WiFiPassword = WIFI_PASSWORD"
definition MQTTBrokerIP :: string where "MQTTBrokerIP = MQTT_BROKER_IP"
definition MQTTBrokerPort :: "16 word" where "MQTTBrokerPort = MQTT_BROKER_PORT"
definition MQTTBrokerUsername :: string where "MQTTBrokerUsername = MQTT_BROKER_USERNAME"
definition MQTTBrokerPassword :: string where "MQTTBrokerPassword = MQTT_BROKER_PASSWORD"
definition MQTTClientID :: string where "MQTTClientID = MQTT_CLIENT_ID"

definition LOW :: "8 word" where "LOW = 0"
definition HIGH :: "8 word" where "HIGH = 1"

text \<open>The status values of WiFiNINA's \<open>wl_status_t\<close>.\<close>

datatype wl_status =
    WL_NO_MODULE | WL_IDLE_STATUS | WL_NO_SSID_AVAIL | WL_SCAN_COMPLETED | WL_CONNECTED
  | WL_CONNECT_FAILED | WL_CONNECTION_LOST | WL_DISCONNECTED
  | WL_AP_LISTENING | WL_AP_CONNECTED | WL_AP_FAILED

subsection \<open>The world\<close>

text \<open>
  One event per call that reaches outside the program. \<open>MqttPublish\<close> carries topic,
  payload, the retain flag and what \<open>publish\<close> returned; \<open>MqttSubscribe\<close> topic,
  QoS and the result; \<open>MqttConnect\<close> client id, user, password and the result.
  \<open>MqttLoop\<close> marks a call of \<open>mqttClient.loop()\<close>, the only place where the
  library reads an inbound packet and calls the callback.
\<close>

datatype event =
    SerialBegin nat
  | SerialOut string
  | PinModeOutput
  | DigitalWrite "8 word"
  | Delay nat
  | SetServer string "16 word"
  | SetCallback
  | WiFiBegin string string
  | MqttConnect string string string bool
  | MqttPublish string string bool bool
  | MqttSubscribe string nat bool
  | MqttLoop

record world =
  previousLEDValue :: "8 word"
  previousA0Value :: int
  ledPin :: bool
  brokerLink :: bool
  serialReady :: "nat \<Rightarrow> bool"
  serialPolls :: nat
  wifiStatus :: "nat \<Rightarrow> wl_status"
  wifiPolls :: nat
  firmwareOld :: bool
  connectResult :: "nat \<Rightarrow> bool"
  connectCalls :: nat
  publishResult :: "nat \<Rightarrow> bool"
  publishCalls :: nat
  subscribeResult :: "nat \<Rightarrow> bool"
  subscribeCalls :: nat
  a0Sample :: "nat \<Rightarrow> int"
  a0Reads :: nat
  inbound :: "nat \<Rightarrow> (string \<times> string) option"
  linkLost :: "nat \<Rightarrow> bool"
  pumpCalls :: nat
  trace :: "event list"

text \<open>
  How a call ends. \<open>Returns w\<close>: it returns in world \<open>w\<close>. \<open>Halts w\<close>: the
  processor spins in \<open>while (true);\<close> and the world stays \<open>w\<close> for ever.
  \<open>Overrun w\<close>: \<open>itoa\<close> was asked to write more than the five bytes of \<open>status\<close>
  in world \<open>w\<close>; C leaves everything after that undefined. A loop that never ends
  has no outcome: the looping functions return \<open>None\<close> for it.
\<close>

datatype outcome = Returns world | Halts world | Overrun world

fun world_of :: "outcome \<Rightarrow> world" where
  "world_of (Returns w) = w"
| "world_of (Halts w) = w"
| "world_of (Overrun w) = w"

text \<open>Sequencing: the next statement runs only after a call that returned.\<close>

fun andThen :: "outcome \<Rightarrow> (world \<Rightarrow> outcome) \<Rightarrow> outcome" where
  "andThen (Returns w) f = f w"
| "andThen (Halts w) f = Halts w"
| "andThen (Overrun w) f = Overrun w"

fun andThenO :: "outcome option \<Rightarrow> (world \<Rightarrow> outcome option) \<Rightarrow> outcome option" where
  "andThenO None f = None"
| "andThenO (Some (Returns w)) f = f w"
| "andThenO (Some (Halts w)) f = Some (Halts w)"
| "andThenO (Some (Overrun w)) f = Some (Overrun w)"

subsection \<open>Library primitives\<close>

definition emit :: "event \<Rightarrow> world \<Rightarrow> world" where
  "emit e s = s\<lparr>trace := trace s @ [e]\<rparr>"

abbreviation NUL :: char where "NUL \<equiv> CHR 0x00"

definition cstr :: "string \<Rightarrow> string" where
  "cstr xs = takeWhile (\<lambda>c. c \<noteq> NUL) xs"

definition Serial_print :: "string \<Rightarrow> world \<Rightarrow> world" where
  "Serial_print str s = emit (SerialOut (cstr str)) s"

definition Serial_println :: "string \<Rightarrow> world \<Rightarrow> world" where
  "Serial_println str s = emit (SerialOut (cstr str @ [CHR 0x0D, CHR 0x0A])) s"

text \<open>
  \<open>strcmp\<close> walks both arrays up to the first NUL; the end of the list stands for
  the terminator. Only the sign of a non-zero result is fixed by C.
\<close>

fun strcmp :: "string \<Rightarrow> string \<Rightarrow> int" where
  "strcmp [] [] = 0"
| "strcmp [] (b # bs) = (if b = NUL then 0 else - 1)"
| "strcmp (a # as) [] = (if a = NUL then 0 else 1)"
| "strcmp (a # as) (b # bs) =
     (if a = NUL \<and> b = NUL then 0
      else if a = b then strcmp as bs
      else if (of_char a :: nat) < of_char b then - 1 else 1)"

text \<open>
  \<open>digitalRead\<close> of the LED pin, an output, gives the level the pin is driven to;
  \<open>digitalWrite\<close> drives it low for \<open>LOW\<close> and high for anything else.
\<close>

definition digitalRead_LED :: "world \<Rightarrow> 8 word" where
  "digitalRead_LED s = (if ledPin s then HIGH else LOW)"

definition digitalWrite_LED :: "8 word \<Rightarrow> world \<Rightarrow> world" where
  "digitalWrite_LED v s = emit (DigitalWrite v) (s\<lparr>ledPin := (v \<noteq> LOW)\<rparr>)"

definition analogRead_A0 :: "world \<Rightarrow> int \<times> world" where
  "analogRead_A0 s = (a0Sample s (a0Reads s), s\<lparr>a0Reads := Suc (a0Reads s)\<rparr>)"

definition delay :: "nat \<Rightarrow> world \<Rightarrow> world" where
  "delay ms s = emit (Delay ms) s"

text \<open>
  PubSubClient. \<open>connected()\<close> reports the link state, which \<open>connect\<close> sets to its
  own result and which only \<open>loop()\<close> can find lost. The results of \<open>connect\<close>,
  \<open>publish\<close> and \<open>subscribe\<close> come from the script, without any restriction.
\<close>

definition mqttClient_connected :: "world \<Rightarrow> bool" where
  "mqttClient_connected s = brokerLink s"

definition mqttClient_connect :: "string \<Rightarrow> string \<Rightarrow> string \<Rightarrow> world \<Rightarrow> bool \<times> world" where
  "mqttClient_connect cid user pass s =
     (let ok = connectResult s (connectCalls s)
      in (ok, emit (MqttConnect cid user pass ok)
                (s\<lparr>connectCalls := Suc (connectCalls s), brokerLink := ok\<rparr>)))"

definition mqttClient_publish :: "string \<Rightarrow> string \<Rightarrow> bool \<Rightarrow> world \<Rightarrow> bool \<times> world" where
  "mqttClient_publish topic payload retained s =
     (let ok = publishResult s (publishCalls s)
      in (ok, emit (MqttPublish (cstr topic) (cstr payload) retained ok)
                (s\<lparr>publishCalls := Suc (publishCalls s)\<rparr>)))"

definition mqttClient_subscribe :: "string \<Rightarrow> nat \<Rightarrow> world \<Rightarrow> bool \<times> world" where
  "mqttClient_subscribe topic qos s =
     (let ok = subscribeResult s (subscribeCalls s)
      in (ok, emit (MqttSubscribe (cstr topic) qos ok)
                (s\<lparr>subscribeCalls := Suc (subscribeCalls s)\<rparr>)))"

subsection \<open>itoa and the status buffer\<close>

definition digit_char :: "nat \<Rightarrow> char" where
  "digit_char d = ''0123456789'' ! d"

fun utoa10 :: "nat \<Rightarrow> string" where
  "utoa10 n = (if n < 10 then [digit_char n] else utoa10 (n div 10) @ [digit_char (n mod 10)])"

declare utoa10.simps [simp del]

text \<open>\<open>itoa(value, buf, 10)\<close>: a minus sign for a negative value, then the digits.\<close>

definition itoa :: "int \<Rightarrow> string" where
  "itoa v = (if v < 0 then CHR ''-'' # utoa10 (nat (- v)) else utoa10 (nat v))"

text \<open>
  \<open>itoa\<close> into an array of \<open>cap\<close> bytes: the characters and the terminating NUL
  must fit, otherwise it writes past the end.
\<close>

definition itoa_into :: "nat \<Rightarrow> int \<Rightarrow> string option" where
  "itoa_into cap v = (if length (itoa v) + 1 \<le> cap then Some (itoa v) else None)"

subsection \<open>Publishing status\<close>

definition mqttPublishA0Status :: "world \<Rightarrow> outcome" where
  "mqttPublishA0Status s =
     (let topic = MQTTClientID @ ''/status/A0'';
          (currentA0Value, s1) = analogRead_A0 s
      in case itoa_into 5 currentA0Value of
           None \<Rightarrow> Overrun s1
         | Some status \<Rightarrow>
             (let (ok, s2) = mqttClient_publish topic status True s1
              in if ok then
                   (let s3 = (if DEBUG then
                                Serial_println status (Serial_print '' ''
                                  (Serial_print topic (Serial_print ''Status published: '' s2)))
                              else s2)
                    in Returns (s3\<lparr>previousA0Value := currentA0Value\<rparr>))
                 else
                   Returns (if DEBUG then Serial_println ''ERROR: Unable to publish A0 status.'' s2
                            else s2)))"

definition mqttPublishLEDStatus :: "world \<Rightarrow> outcome" where
  "mqttPublishLEDStatus s =
     (let topic = MQTTClientID @ ''/status/LED'';
          currentLEDValue = digitalRead_LED s;
          status = (if currentLEDValue = HIGH then ''on'' else ''off'');
          (ok, s2) = mqttClient_publish topic status True s
      in if ok then
           (let s3 = (if DEBUG then
                        Serial_println status (Serial_print '' ''
                          (Serial_print topic (Serial_print ''Status published: '' s2)))
                      else s2)
            in Returns (s3\<lparr>previousLEDValue := currentLEDValue\<rparr>))
         else
           Returns (if DEBUG then Serial_println ''ERROR: Unable to publish LED status.'' s2
                    else s2))"

subsection \<open>The command callback\<close>

text \<open>
  \<open>payload\<close> stands for the \<open>length\<close> bytes the library hands over; \<open>message\<close> is
  that array with a NUL appended, so \<open>strcmp\<close> and \<open>println\<close> see \<open>cstr payload\<close>.
\<close>

definition mqttCommandReceived :: "string \<Rightarrow> string \<Rightarrow> world \<Rightarrow> outcome" where
  "mqttCommandReceived topic payload s =
     (let message = payload @ [NUL];
          s1 = (if DEBUG then
                  Serial_println message (Serial_print '' ''
                    (Serial_print topic (Serial_print ''Command received: '' s)))
                else s);
          commandA0 = MQTTClientID @ ''/command/A0'';
          commandLED = MQTTClientID @ ''/command/LED''
      in if strcmp topic commandA0 = 0 \<and> strcmp message ''get'' = 0 then
           mqttPublishA0Status s1
         else if strcmp topic commandLED = 0 \<and> strcmp message ''get'' = 0 then
           mqttPublishLEDStatus s1
         else if strcmp topic commandLED = 0 \<and> strcmp message ''on'' = 0 then
           mqttPublishLEDStatus
             ((if DEBUG then Serial_println ''Turned on LED.'' else id)
                (digitalWrite_LED HIGH s1))
         else if strcmp topic commandLED = 0 \<and> strcmp message ''off'' = 0 then
           mqttPublishLEDStatus
             ((if DEBUG then Serial_println ''Turned off LED.'' else id)
                (digitalWrite_LED LOW s1))
         else
           Returns (if DEBUG then Serial_println ''ERROR: Unknown command.'' s1 else s1))"

subsection \<open>The periodic check\<close>

definition mqttCheckAndReportStatus :: "world \<Rightarrow> outcome" where
  "mqttCheckAndReportStatus s =
     (let (currentA0Value, s1) = analogRead_A0 s
      in andThen
           (if \<bar>currentA0Value - previousA0Value s1\<bar> > 100 then mqttPublishA0Status s1
            else Returns s1)
           (\<lambda>s2. let currentLEDValue = digitalRead_LED s2
                 in if currentLEDValue \<noteq> previousLEDValue s2 then mqttPublishLEDStatus s2
                    else Returns s2))"

subsection \<open>Connecting\<close>

definition configureMQTTClient :: "world \<Rightarrow> world" where
  "configureMQTTClient s = emit SetCallback (emit (SetServer MQTTBrokerIP MQTTBrokerPort) s)"

text \<open>\<open>while (!Serial);\<close> polls the port until it answers.\<close>

partial_function (option) configureSerialMonitor_while :: "world \<Rightarrow> world option" where
  "configureSerialMonitor_while s =
     (if \<not> serialReady s (serialPolls s)
      then configureSerialMonitor_while (s\<lparr>serialPolls := Suc (serialPolls s)\<rparr>)
      else Some (s\<lparr>serialPolls := Suc (serialPolls s)\<rparr>))"

definition configureSerialMonitor :: "world \<Rightarrow> world option" where
  "configureSerialMonitor s = configureSerialMonitor_while (emit (SerialBegin 9600) s)"

partial_function (option) connectMQTTBroker_while :: "world \<Rightarrow> world option" where
  "connectMQTTBroker_while s =
     (if \<not> mqttClient_connected s then
        (if fst (mqttClient_connect MQTTClientID MQTTBrokerUsername MQTTBrokerPassword s) then
           connectMQTTBroker_while
             ((if DEBUG then Serial_println ''connected.'' else id)
                (snd (mqttClient_connect MQTTClientID MQTTBrokerUsername MQTTBrokerPassword s)))
         else
           connectMQTTBroker_while
             ((if DEBUG then Serial_print ''.'' else id)
                (delay 1000
                   (snd (mqttClient_connect MQTTClientID MQTTBrokerUsername MQTTBrokerPassword s)))))
      else Some s)"

definition connectMQTTBroker :: "world \<Rightarrow> world option" where
  "connectMQTTBroker s =
     connectMQTTBroker_while
       (if DEBUG then
          Serial_print '')...'' (Serial_print MQTTBrokerIP
            (Serial_print ''Connecting to MQTT broker ('' s))
        else s)"

definition WiFi_status :: "world \<Rightarrow> wl_status \<times> world" where
  "WiFi_status s = (wifiStatus s (wifiPolls s), s\<lparr>wifiPolls := Suc (wifiPolls s)\<rparr>)"

definition WiFi_begin :: "string \<Rightarrow> string \<Rightarrow> world \<Rightarrow> world" where
  "WiFi_begin ssid pass s = emit (WiFiBegin (cstr ssid) (cstr pass)) s"

partial_function (option) connectWiFiNetwork_while :: "world \<Rightarrow> world option" where
  "connectWiFiNetwork_while s =
     (if fst (WiFi_status s) \<noteq> WL_CONNECTED then
        connectWiFiNetwork_while
          ((if DEBUG then Serial_print ''.'' else id) (delay 1000 (snd (WiFi_status s))))
      else Some (snd (WiFi_status s)))"

text \<open>
  \<open>firmwareOld\<close> is the value of \<open>version < WIFI_FIRMWARE_LATEST_VERSION\<close>, a
  comparison of two strings of the WiFi library.
\<close>

definition connectWiFiNetwork :: "world \<Rightarrow> outcome option" where
  "connectWiFiNetwork s =
     (let (st, s1) = WiFi_status s
      in if st = WL_NO_MODULE then
           Some (Halts (if DEBUG then
                          Serial_println ''ERROR: Communication with WiFi module failed.'' s1
                        else s1))
         else
           (let s2 = (if DEBUG then Serial_println ''WiFi module found.'' s1 else s1);
                s3 = (if DEBUG \<and> firmwareOld s2 then
                        Serial_println ''Please upgrade the WiFi module firmware.'' s2
                      else s2);
                s4 = (if DEBUG then
                        Serial_print '')...'' (Serial_print WiFiSSID
                          (Serial_print ''Connecting to WiFi network ('' s3))
                      else s3)
            in case connectWiFiNetwork_while (WiFi_begin WiFiSSID WiFiPassword s4) of
                 None \<Rightarrow> None
               | Some s5 \<Rightarrow>
                   Some (Returns (if DEBUG then Serial_println ''connected.'' s5 else s5))))"

subsection \<open>Subscribing, the message pump, setup and loop\<close>

definition mqttSubscribeToCommands :: "world \<Rightarrow> world" where
  "mqttSubscribeToCommands s =
     (let topic = MQTTClientID @ ''/command/#'';
          (ok, s1) = mqttClient_subscribe topic 1 s
      in if ok then
           (if DEBUG then Serial_println topic (Serial_print ''Subscribed to topic: '' s1)
            else s1)
         else
           (if DEBUG then
              Serial_println topic (Serial_print ''ERROR: Unable to subscribe to topic: '' s1)
            else s1))"

text \<open>
  \<open>mqttClient.loop()\<close>: without a link it returns at once. With one, the k-th
  call hands the packet \<open>inbound k\<close>, if any, to the callback set in
  \<open>configureMQTTClient\<close>, and may find the link lost (\<open>linkLost k\<close>).
\<close>

definition mqttClient_loop :: "world \<Rightarrow> outcome" where
  "mqttClient_loop s =
     (let s0 = emit MqttLoop s
      in if \<not> brokerLink s0 then Returns s0
         else
           (let k = pumpCalls s0;
                s1 = s0\<lparr>pumpCalls := Suc k\<rparr>
            in andThen
                 (case inbound s1 k of
                    None \<Rightarrow> Returns s1
                  | Some (topic, payload) \<Rightarrow> mqttCommandReceived topic payload s1)
                 (\<lambda>s2. Returns (s2\<lparr>brokerLink := \<not> linkLost s2 k\<rparr>))))"

text \<open>
  \<open>setup\<close> of the sketch; the name carries a suffix because Isabelle reserves the word.
\<close>

definition setup_ino :: "world \<Rightarrow> outcome option" where
  "setup_ino s =
     (let s1 = emit PinModeOutput s
      in case (if DEBUG then configureSerialMonitor s1 else Some s1) of
           None \<Rightarrow> None
         | Some s2 \<Rightarrow>
             andThenO (connectWiFiNetwork (configureMQTTClient s2))
               (\<lambda>s3. case connectMQTTBroker s3 of
                        None \<Rightarrow> None
                      | Some s4 \<Rightarrow>
                          Some (andThen (andThen (mqttPublishA0Status s4) mqttPublishLEDStatus)
                                  (\<lambda>s5. Returns (mqttSubscribeToCommands s5)))))"

definition loop :: "world \<Rightarrow> outcome option" where
  "loop s =
     (case (if \<not> mqttClient_connected s
            then map_option mqttSubscribeToCommands (connectMQTTBroker s)
            else Some s) of
        None \<Rightarrow> None
      | Some s1 \<Rightarrow> Some (andThen (mqttClient_loop s1) mqttCheckAndReportStatus))"

subsection \<open>Reading the trace\<close>

fun is_publish_to :: "string \<Rightarrow> event \<Rightarrow> bool" where
  "is_publish_to t (MqttPublish t' p r ok) = (t' = t)"
| "is_publish_to t e = False"

fun is_publish :: "event \<Rightarrow> bool" where
  "is_publish (MqttPublish t p r ok) = True"
| "is_publish e = False"

fun is_pin_write :: "event \<Rightarrow> bool" where
  "is_pin_write (DigitalWrite v) = True"
| "is_pin_write e = False"

fun is_serial :: "event \<Rightarrow> bool" where
  "is_serial (SerialOut str) = True"
| "is_serial e = False"

text \<open>The publish attempts on the two status topics, and the trace without the debug output.\<close>

definition a0_publishes :: "event list \<Rightarrow> event list" where
  "a0_publishes tr = filter (is_publish_to (MQTTClientID @ ''/status/A0'')) tr"

definition led_publishes :: "event list \<Rightarrow> event list" where
  "led_publishes tr = filter (is_publish_to (MQTTClientID @ ''/status/LED'')) tr"

definition io :: "event list \<Rightarrow> event list" where
  "io tr = filter (\<lambda>e. \<not> is_serial e) tr"

text \<open>The payload of the most recent successful publish on a topic, if there was one.\<close>

fun last_published :: "string \<Rightarrow> event list \<Rightarrow> string option" where
  "last_published t [] = None"
| "last_published t (e # es) =
     (case last_published t es of
        Some p \<Rightarrow> Some p
      | None \<Rightarrow>
          (case e of
             MqttPublish t' p r ok \<Rightarrow> if t' = t \<and> ok then Some p else None
           | _ \<Rightarrow> None))"

text \<open>
  The relation between the two globals and what the broker was last told: before
  any successful publish the globals have their initial values 0 and \<open>LOW\<close>.
\<close>

definition cache_inv :: "world \<Rightarrow> bool" where
  "cache_inv s =
     ((case last_published (MQTTClientID @ ''/status/A0'') (trace s) of
         None \<Rightarrow> previousA0Value s = 0
       | Some p \<Rightarrow> p = itoa (previousA0Value s))
      \<and>
      (case last_published (MQTTClientID @ ''/status/LED'') (trace s) of
         None \<Rightarrow> previousLEDValue s = LOW
       | Some p \<Rightarrow> if p = ''on'' then previousLEDValue s = HIGH
                   else p = ''off'' \<and> previousLEDValue s = LOW))"

subsection \<open>Reading a decimal string back\<close>

fun digit_value :: "char \<Rightarrow> nat" where
  "digit_value c = of_char c - 48"

definition decimal_value :: "string \<Rightarrow> nat" where
  "decimal_value str = foldl (\<lambda>a c. 10 * a + digit_value c) 0 str"

subsection \<open>A concrete board\<close>

text \<open>
  The board after reset: the serial port answers at the second poll, the WiFi
  module associates at the third status poll, the broker accepts the second
  connect, every publish and subscribe succeeds, the converter reads 512 and one
  \<open>get\<close> for the LED arrives with the first call of the message pump.
\<close>

definition demo :: world where
  "demo = \<lparr>previousLEDValue = LOW, previousA0Value = 0, ledPin = False, brokerLink = False,
     serialReady = (\<lambda>k. 0 < k), serialPolls = 0,
     wifiStatus = (\<lambda>k. if k < 2 then WL_IDLE_STATUS else WL_CONNECTED), wifiPolls = 0,
     firmwareOld = False,
     connectResult = (\<lambda>k. 0 < k), connectCalls = 0,
     publishResult = (\<lambda>k. True), publishCalls = 0,
     subscribeResult = (\<lambda>k. True), subscribeCalls = 0,
     a0Sample = (\<lambda>k. 512), a0Reads = 0,
     inbound = (\<lambda>k. if k = 0 then Some (''Arduino/command/LED'', ''get'') else None),
     linkLost = (\<lambda>k. False), pumpCalls = 0, trace = []\<rparr>"

text \<open>The same board with a converter that reads -1, and one that reads 10000.\<close>

definition negative_reading :: world where
  "negative_reading = demo\<lparr>a0Sample := (\<lambda>k. - 1)\<rparr>"

definition large_reading :: world where
  "large_reading = demo\<lparr>a0Sample := (\<lambda>k. 10000)\<rparr>"

text \<open>
  Variations of the board: a converter that drifts 60, 120, 130; a broker that
  refuses the first two publishes while the LED pin is high; a converter that
  reads 150 and then 40; a broker that never accepts a connect; a board without a
  WiFi module.
\<close>

definition drift :: world where
  "drift = demo\<lparr>a0Sample := (\<lambda>k. if k = 0 then 60 else if k = 1 then 120 else 130)\<rparr>"


definition jitter :: world where
  "jitter = demo\<lparr>a0Sample := (\<lambda>k. if k = 0 then 150 else 40)\<rparr>"

definition offline :: world where
  "offline = demo\<lparr>connectResult := (\<lambda>k. False)\<rparr>"

definition no_module :: world where
  "no_module = demo\<lparr>wifiStatus := (\<lambda>k. WL_NO_MODULE)\<rparr>"








text \<open>The demo board after \<open>connectMQTTBroker\<close>, and after one call of \<open>loop\<close>.\<close>

definition demo_connected :: world where
  "demo_connected = demo\<lparr>brokerLink := True, connectCalls := 2,
     trace :=
       [SerialOut ''Connecting to MQTT broker ('', SerialOut ''000.000.000.000'',
        SerialOut '')...'',
        MqttConnect ''Arduino'' ''your_username'' ''your_password'' False,
        Delay 1000, SerialOut ''.'',
        MqttConnect ''Arduino'' ''your_username'' ''your_password'' True,
        SerialOut (''connected.'' @ [CHR 0x0D, CHR 0x0A])]\<rparr>"

definition demo_looped :: world where
  "demo_looped = demo_connected\<lparr>previousA0Value := 512, publishCalls := 2,
     subscribeCalls := 1, a0Reads := 2, pumpCalls := 1,
     trace := trace demo_connected @
       [MqttSubscribe ''Arduino/command/#'' 1 True,
        SerialOut ''Subscribed to topic: '',
        SerialOut (''Arduino/command/#'' @ [CHR 0x0D, CHR 0x0A]),
        MqttLoop,
        SerialOut ''Command received: '', SerialOut ''Arduino/command/LED'', SerialOut '' '',
        SerialOut (''get'' @ [CHR 0x0D, CHR 0x0A]),
        MqttPublish ''Arduino/status/LED'' ''off'' True True,
        SerialOut ''Status published: '', SerialOut ''Arduino/status/LED'', SerialOut '' '',
        SerialOut (''off'' @ [CHR 0x0D, CHR 0x0A]),
        MqttPublish ''Arduino/status/A0'' ''512'' True True,
        SerialOut ''Status published: '', SerialOut ''Arduino/status/A0'', SerialOut '' '',
        SerialOut (''512'' @ [CHR 0x0D, CHR 0x0A])]\<rparr>"

text \<open>What \<open>cache_inv\<close> reads of a world: the two globals and the publish events.\<close>

definition cache_view :: "world \<Rightarrow> int \<times> 8 word \<times> event list" where
  "cache_view s = (previousA0Value s, previousLEDValue s, filter is_publish (trace s))"

text \<open>
  The demo board booted from reset: after \<open>connectWiFiNetwork\<close>, after the whole of
  \<open>setup\<close>, and after the first call of \<open>loop\<close>, which serves the \<open>get\<close>.
\<close>

definition demo_wifi :: world where
  "demo_wifi = demo\<lparr>serialPolls := 2, wifiPolls := 3,
     trace :=
       [PinModeOutput, SerialBegin 9600, SetServer ''000.000.000.000'' 1883, SetCallback,
        SerialOut (''WiFi module found.'' @ [CHR 0x0D, CHR 0x0A]),
        SerialOut ''Connecting to WiFi network ('', SerialOut ''your_ssid'', SerialOut '')...'',
        WiFiBegin ''your_ssid'' ''your_password'',
        Delay 1000, SerialOut ''.'',
        SerialOut (''connected.'' @ [CHR 0x0D, CHR 0x0A])]\<rparr>"

definition demo_booted :: world where
  "demo_booted = demo_wifi\<lparr>previousA0Value := 512, brokerLink := True, connectCalls := 2,
     publishCalls := 2, subscribeCalls := 1, a0Reads := 1,
     trace := trace demo_wifi @
       [SerialOut ''Connecting to MQTT broker ('', SerialOut ''000.000.000.000'',
        SerialOut '')...'',
        MqttConnect ''Arduino'' ''your_username'' ''your_password'' False,
        Delay 1000, SerialOut ''.'',
        MqttConnect ''Arduino'' ''your_username'' ''your_password'' True,
        SerialOut (''connected.'' @ [CHR 0x0D, CHR 0x0A]),
        MqttPublish ''Arduino/status/A0'' ''512'' True True,
        SerialOut ''Status published: '', SerialOut ''Arduino/status/A0'', SerialOut '' '',
        SerialOut (''512'' @ [CHR 0x0D, CHR 0x0A]),
        MqttPublish ''Arduino/status/LED'' ''off'' True True,
        SerialOut ''Status published: '', SerialOut ''Arduino/status/LED'', SerialOut '' '',
        SerialOut (''off'' @ [CHR 0x0D, CHR 0x0A]),
        MqttSubscribe ''Arduino/command/#'' 1 True,
        SerialOut ''Subscribed to topic: '',
        SerialOut (''Arduino/command/#'' @ [CHR 0x0D, CHR 0x0A])]\<rparr>"

definition demo_served :: world where
  "demo_served = demo_booted\<lparr>publishCalls := 3, a0Reads := 2, pumpCalls := 1,
     trace := trace demo_booted @
       [MqttLoop,
        SerialOut ''Command received: '', SerialOut ''Arduino/command/LED'', SerialOut '' '',
        SerialOut (''get'' @ [CHR 0x0D, CHR 0x0A]),
        MqttPublish ''Arduino/status/LED'' ''off'' True True,
        SerialOut ''Status published: '', SerialOut ''Arduino/status/LED'', SerialOut '' '',
        SerialOut (''off'' @ [CHR 0x0D, CHR 0x0A])]\<rparr>"

section \<open>Strings and decimal digits\<close>

lemma strcmp_zero_iff: "strcmp a b = 0 \<longleftrightarrow> cstr a = cstr b"
  by (induction a b rule: strcmp.induct) (auto simp: cstr_def)

lemma cstr_append_NUL: "cstr (xs @ [NUL]) = cstr xs"
  by (induction xs) (auto simp: cstr_def)

lemma cstr_id: "NUL \<notin> set xs \<Longrightarrow> cstr xs = xs"
  by (induction xs) (auto simp: cstr_def)

lemma cstr_topics:
  "cstr (MQTTClientID @ ''/command/A0'') = MQTTClientID @ ''/command/A0''"
  "cstr (MQTTClientID @ ''/command/LED'') = MQTTClientID @ ''/command/LED''"
  "cstr (MQTTClientID @ ''/status/A0'') = MQTTClientID @ ''/status/A0''"
  "cstr (MQTTClientID @ ''/status/LED'') = MQTTClientID @ ''/status/LED''"
  "cstr (MQTTClientID @ ''/command/#'') = MQTTClientID @ ''/command/#''"
  by (simp_all add: cstr_def MQTTClientID_def MQTT_CLIENT_ID_def)

lemma digit_char_cases:
  assumes "d < 10"
  shows "digit_char d \<in> set ''0123456789'' \<and> digit_value (digit_char d) = d
    \<and> digit_char d \<noteq> NUL"
proof -
  from assms have "d \<in> {0,1,2,3,4,5,6,7,8,9}" by auto
  then show ?thesis by (auto simp: digit_char_def)
qed

lemma utoa10_digits: "set (utoa10 n) \<subseteq> set ''0123456789''"
proof (induction n rule: utoa10.induct)
  case (1 n)
  show ?case
  proof (cases "n < 10")
    case True
    then show ?thesis using digit_char_cases [of n] by (subst utoa10.simps) simp
  next
    case False
    then have "set (utoa10 (n div 10)) \<subseteq> set ''0123456789''" using 1 by simp
    moreover have "digit_char (n mod 10) \<in> set ''0123456789''"
      using digit_char_cases [of "n mod 10"] by simp
    ultimately show ?thesis using False by (subst utoa10.simps) simp
  qed
qed

lemma decimal_value_snoc: "decimal_value (xs @ [c]) = 10 * decimal_value xs + digit_value c"
  by (simp add: decimal_value_def)

lemma decimal_value_utoa10: "decimal_value (utoa10 n) = n"
proof (induction n rule: utoa10.induct)
  case (1 n)
  show ?case
  proof (cases "n < 10")
    case True
    then show ?thesis using digit_char_cases [of n]
      by (subst utoa10.simps) (simp add: decimal_value_def)
  next
    case False
    then have "decimal_value (utoa10 (n div 10)) = n div 10" using 1 by simp
    moreover have "digit_value (digit_char (n mod 10)) = n mod 10"
      using digit_char_cases [of "n mod 10"] by simp
    ultimately show ?thesis using False
      by (subst utoa10.simps) (simp add: decimal_value_snoc del: digit_value.simps)
  qed
qed

lemma length_utoa10:
  "length (utoa10 n) = (if n < 10 then 1 else Suc (length (utoa10 (n div 10))))"
  by (subst utoa10.simps) simp

lemma length_utoa10_le4: "length (utoa10 n) \<le> 4 \<longleftrightarrow> n < 10000"
proof -
  have a: "length (utoa10 n) = (if n < 10 then 1 else Suc (length (utoa10 (n div 10))))"
    by (rule length_utoa10)
  have b: "length (utoa10 (n div 10)) =
      (if n div 10 < 10 then 1 else Suc (length (utoa10 (n div 100))))"
    by (subst length_utoa10) (simp add: div_mult2_eq [symmetric])
  have c: "length (utoa10 (n div 100)) =
      (if n div 100 < 10 then 1 else Suc (length (utoa10 (n div 1000))))"
    by (subst length_utoa10) (simp add: div_mult2_eq [symmetric])
  have d: "length (utoa10 (n div 1000)) =
      (if n div 1000 < 10 then 1 else Suc (length (utoa10 (n div 10000))))"
    by (subst length_utoa10) (simp add: div_mult2_eq [symmetric])
  have e: "1 \<le> length (utoa10 (n div 10000))"
    by (subst length_utoa10) simp
  show ?thesis using e unfolding a b c d by (auto split: if_splits)
qed

lemma length_utoa10_le3: "length (utoa10 n) \<le> 3 \<longleftrightarrow> n < 1000"
proof -
  have a: "length (utoa10 n) = (if n < 10 then 1 else Suc (length (utoa10 (n div 10))))"
    by (rule length_utoa10)
  have b: "length (utoa10 (n div 10)) =
      (if n div 10 < 10 then 1 else Suc (length (utoa10 (n div 100))))"
    by (subst length_utoa10) (simp add: div_mult2_eq [symmetric])
  have c: "length (utoa10 (n div 100)) =
      (if n div 100 < 10 then 1 else Suc (length (utoa10 (n div 1000))))"
    by (subst length_utoa10) (simp add: div_mult2_eq [symmetric])
  have e: "1 \<le> length (utoa10 (n div 1000))"
    by (subst length_utoa10) simp
  show ?thesis using e unfolding a b c by (auto split: if_splits)
qed

lemma itoa_into_5:
  "itoa_into 5 v = (if - 999 \<le> v \<and> v \<le> 9999 then Some (itoa v) else None)"
  by (auto simp: itoa_into_def itoa_def length_utoa10_le4 length_utoa10_le3)

lemma NUL_notin_itoa: "NUL \<notin> set (itoa v)"
  using utoa10_digits [of "nat v"] utoa10_digits [of "nat (- v)"]
  by (auto simp: itoa_def)

lemma cstr_itoa: "cstr (itoa v) = itoa v"
  by (rule cstr_id) (rule NUL_notin_itoa)

text \<open>Different integers have different renderings.\<close>

lemma itoa_inject:
  assumes "itoa a = itoa b"
  shows "a = b"
proof -
  have minus: "CHR ''-'' \<notin> set (utoa10 n)" for n
    using utoa10_digits [of n] by auto
  consider "a < 0" "b < 0" | "a < 0" "0 \<le> b" | "0 \<le> a" "b < 0" | "0 \<le> a" "0 \<le> b"
    by linarith
  then show ?thesis
  proof cases
    case 1
    with assms have "utoa10 (nat (- a)) = utoa10 (nat (- b))" by (simp add: itoa_def)
    then have "decimal_value (utoa10 (nat (- a))) = decimal_value (utoa10 (nat (- b)))"
      by simp
    then have "nat (- a) = nat (- b)" by (simp only: decimal_value_utoa10)
    with 1 show ?thesis by linarith
  next
    case 2
    with assms have "CHR ''-'' # utoa10 (nat (- a)) = utoa10 (nat b)" by (simp add: itoa_def)
    then have "CHR ''-'' \<in> set (utoa10 (nat b))" by (metis list.set_intros(1))
    with minus show ?thesis by blast
  next
    case 3
    with assms have "utoa10 (nat a) = CHR ''-'' # utoa10 (nat (- b))" by (simp add: itoa_def)
    then have "CHR ''-'' \<in> set (utoa10 (nat a))" by (metis list.set_intros(1))
    with minus show ?thesis by blast
  next
    case 4
    with assms have "utoa10 (nat a) = utoa10 (nat b)" by (simp add: itoa_def)
    then have "decimal_value (utoa10 (nat a)) = decimal_value (utoa10 (nat b))" by simp
    then have "nat a = nat b" by (simp only: decimal_value_utoa10)
    with 4 show ?thesis by linarith
  qed
qed

section \<open>What one publish does\<close>


lemmas prims = Serial_print_def Serial_println_def emit_def digitalRead_LED_def
  digitalWrite_LED_def analogRead_A0_def mqttClient_publish_def DEBUG_def Let_def

lemmas secrets = MQTTClientID_def MQTT_CLIENT_ID_def MQTTBrokerIP_def MQTT_BROKER_IP_def
  MQTTBrokerUsername_def MQTT_BROKER_USERNAME_def MQTTBrokerPassword_def
  MQTT_BROKER_PASSWORD_def MQTTBrokerPort_def MQTT_BROKER_PORT_def
  WiFiSSID_def WIFI_SSID_def WiFiPassword_def WIFI_PASSWORD_def

lemma mqttPublishA0Status_fits:
  assumes "- 999 \<le> a0Sample s (a0Reads s)" "a0Sample s (a0Reads s) \<le> 9999"
  shows "mqttPublishA0Status s =
    Returns (if publishResult s (publishCalls s) then
      s\<lparr>previousA0Value := a0Sample s (a0Reads s),
        publishCalls := Suc (publishCalls s), a0Reads := Suc (a0Reads s),
        trace := trace s @
          [MqttPublish (MQTTClientID @ ''/status/A0'') (itoa (a0Sample s (a0Reads s))) True True,
           SerialOut ''Status published: '', SerialOut (MQTTClientID @ ''/status/A0''),
           SerialOut '' '', SerialOut (itoa (a0Sample s (a0Reads s)) @ [CHR 0x0D, CHR 0x0A])]\<rparr>
     else
      s\<lparr>publishCalls := Suc (publishCalls s), a0Reads := Suc (a0Reads s),
        trace := trace s @
          [MqttPublish (MQTTClientID @ ''/status/A0'') (itoa (a0Sample s (a0Reads s))) True False,
           SerialOut (''ERROR: Unable to publish A0 status.'' @ [CHR 0x0D, CHR 0x0A])]\<rparr>)"
  using assms
  by (simp add: mqttPublishA0Status_def itoa_into_5 prims cstr_topics cstr_itoa cstr_id)

lemma mqttPublishA0Status_overrun:
  assumes "\<not> (- 999 \<le> a0Sample s (a0Reads s) \<and> a0Sample s (a0Reads s) \<le> 9999)"
  shows "mqttPublishA0Status s = Overrun (s\<lparr>a0Reads := Suc (a0Reads s)\<rparr>)"
  using assms
  by (simp add: mqttPublishA0Status_def itoa_into_5 prims)

lemma mqttPublishLEDStatus_eq:
  "mqttPublishLEDStatus s =
    Returns (if publishResult s (publishCalls s) then
      s\<lparr>previousLEDValue := (if ledPin s then HIGH else LOW),
        publishCalls := Suc (publishCalls s),
        trace := trace s @
          [MqttPublish (MQTTClientID @ ''/status/LED'') (if ledPin s then ''on'' else ''off'') True True,
           SerialOut ''Status published: '', SerialOut (MQTTClientID @ ''/status/LED''),
           SerialOut '' '', SerialOut ((if ledPin s then ''on'' else ''off'') @ [CHR 0x0D, CHR 0x0A])]\<rparr>
     else
      s\<lparr>publishCalls := Suc (publishCalls s),
        trace := trace s @
          [MqttPublish (MQTTClientID @ ''/status/LED'') (if ledPin s then ''on'' else ''off'') True False,
           SerialOut (''ERROR: Unable to publish LED status.'' @ [CHR 0x0D, CHR 0x0A])]\<rparr>)"
  by (simp add: mqttPublishLEDStatus_def prims cstr_topics cstr_id HIGH_def LOW_def)

section \<open>The claims about one command and one publish\<close>

lemma cstr_Nil: "cstr [] = []"
  by (simp add: cstr_def)

lemma cstr_Cons: "cstr (c # cs) = (if c = NUL then [] else c # cstr cs)"
  by (simp add: cstr_def)

lemma topics_differ:
  "MQTTClientID @ ''/status/A0'' \<noteq> MQTTClientID @ ''/status/LED''"
  "MQTTClientID @ ''/status/LED'' \<noteq> MQTTClientID @ ''/status/A0''"
  by simp_all




lemma mqttCommandReceived_LED_on:
  "mqttCommandReceived (MQTTClientID @ ''/command/LED'') ''on'' s =
     mqttPublishLEDStatus (s\<lparr>ledPin := True, trace := trace s @
        [SerialOut ''Command received: '', SerialOut (MQTTClientID @ ''/command/LED''),
         SerialOut '' '', SerialOut (''on'' @ [CHR 0x0D, CHR 0x0A]),
         DigitalWrite HIGH, SerialOut (''Turned on LED.'' @ [CHR 0x0D, CHR 0x0A])]\<rparr>)"
  by (simp add: mqttCommandReceived_def strcmp_zero_iff cstr_topics prims
      cstr_Nil cstr_Cons HIGH_def LOW_def)

text \<open>
  Claim C5. With the LED pin low and a publish that succeeds, the command
  \<open>on\<close> on the LED command topic returns with the pin high (one
  \<open>digitalWrite\<close> of \<open>HIGH\<close>) and exactly one publish: the retained payload
  \<open>on\<close> on the LED status topic.
\<close>

theorem C5_led_on:
  assumes "\<not> ledPin s" and "publishResult s (publishCalls s)"
  shows "\<exists>s'. mqttCommandReceived (MQTTClientID @ ''/command/LED'') ''on'' s = Returns s'
     \<and> ledPin s' \<and> digitalRead_LED s' = HIGH \<and> previousLEDValue s' = HIGH
     \<and> filter is_pin_write (trace s') = filter is_pin_write (trace s) @ [DigitalWrite HIGH]
     \<and> filter is_publish (trace s') = filter is_publish (trace s) @
          [MqttPublish (MQTTClientID @ ''/status/LED'') ''on'' True True]"
  using assms
  by (simp add: mqttCommandReceived_LED_on mqttPublishLEDStatus_eq digitalRead_LED_def)

text \<open>The demo board has the pin low and a broker that accepts the publish.\<close>

theorem C5_led_on_witness:
  "\<not> ledPin demo \<and> publishResult demo (publishCalls demo)
   \<and> (\<exists>s'. mqttCommandReceived (MQTTClientID @ ''/command/LED'') ''on'' demo = Returns s'
     \<and> ledPin s' \<and> digitalRead_LED s' = HIGH \<and> previousLEDValue s' = HIGH
     \<and> filter is_pin_write (trace s') = filter is_pin_write (trace demo) @ [DigitalWrite HIGH]
     \<and> filter is_publish (trace s') = filter is_publish (trace demo) @
          [MqttPublish (MQTTClientID @ ''/status/LED'') ''on'' True True])"
proof -
  have a: "\<not> ledPin demo" by (simp add: demo_def)
  have b: "publishResult demo (publishCalls demo)" by (simp add: demo_def)
  from C5_led_on [OF a b] a b show ?thesis by blast
qed

text \<open>
  Claim C10, as amended. A reading \<open>v\<close> between -999 and 9999 fits the five bytes
  of \<open>status\<close> with its terminator, and the payload published is \<open>itoa v\<close>;
  for \<open>0 \<le> v \<le> 9999\<close> that is at most four decimal digits whose value is
  \<open>v\<close>. A reading below -999 or above 9999 needs more than five bytes, and
  \<open>mqttPublishA0Status\<close> overruns the buffer.
\<close>

theorem C10_status_buffer:
  assumes "a0Sample s (a0Reads s) = v"
  shows "(- 999 \<le> v \<and> v \<le> 9999 \<longrightarrow>
            length (itoa v) + 1 \<le> 5
          \<and> (\<exists>s'. mqttPublishA0Status s = Returns s'
               \<and> a0_publishes (trace s') = a0_publishes (trace s) @
                   [MqttPublish (MQTTClientID @ ''/status/A0'') (itoa v) True
                      (publishResult s (publishCalls s))]))
       \<and> (0 \<le> v \<and> v \<le> 9999 \<longrightarrow>
            length (itoa v) \<le> 4 \<and> set (itoa v) \<subseteq> set ''0123456789''
          \<and> int (decimal_value (itoa v)) = v)
       \<and> (v < - 999 \<or> 9999 < v \<longrightarrow>
            5 < length (itoa v) + 1
          \<and> mqttPublishA0Status s = Overrun (s\<lparr>a0Reads := Suc (a0Reads s)\<rparr>))"
proof (intro conjI impI)
  assume r: "- 999 \<le> v \<and> v \<le> 9999"
  then show "length (itoa v) + 1 \<le> 5"
    using itoa_into_5 [of v] by (simp add: itoa_into_def split: if_splits)
  from r assms show "\<exists>s'. mqttPublishA0Status s = Returns s'
               \<and> a0_publishes (trace s') = a0_publishes (trace s) @
                   [MqttPublish (MQTTClientID @ ''/status/A0'') (itoa v) True
                      (publishResult s (publishCalls s))]"
    by (simp add: mqttPublishA0Status_fits a0_publishes_def)
next
  assume r: "0 \<le> v \<and> v \<le> 9999"
  then have "nat v < 10000" by arith
  with r show "length (itoa v) \<le> 4" by (simp add: itoa_def length_utoa10_le4)
  from r show "set (itoa v) \<subseteq> set ''0123456789''"
    using utoa10_digits [of "nat v"] by (simp add: itoa_def)
  from r show "int (decimal_value (itoa v)) = v"
    by (simp add: itoa_def decimal_value_utoa10)
next
  assume r: "v < - 999 \<or> 9999 < v"
  then show "5 < length (itoa v) + 1"
    using itoa_into_5 [of v] by (auto simp: itoa_into_def split: if_splits)
  from r assms show "mqttPublishA0Status s = Overrun (s\<lparr>a0Reads := Suc (a0Reads s)\<rparr>)"
    by (intro mqttPublishA0Status_overrun) auto
qed

lemma itoa_examples:
  "itoa 512 = ''512''" "itoa (- 1) = ''-1''" "itoa 10000 = ''10000''"
  by (simp_all add: itoa_def utoa10.simps digit_char_def)

text \<open>The readings 512 and 10000.\<close>

theorem C10_status_buffer_witness:
  "a0Sample demo (a0Reads demo) = 512
   \<and> length (itoa 512) + 1 \<le> 5
   \<and> (\<exists>s'. mqttPublishA0Status demo = Returns s'
        \<and> a0_publishes (trace s') = [MqttPublish ''Arduino/status/A0'' ''512'' True True])
   \<and> decimal_value (itoa 512) = 512
   \<and> a0Sample large_reading (a0Reads large_reading) = 10000
   \<and> 5 < length (itoa 10000) + 1
   \<and> mqttPublishA0Status large_reading = Overrun (large_reading\<lparr>a0Reads := 1\<rparr>)"
proof -
  have a: "a0Sample demo (a0Reads demo) = 512" by (simp add: demo_def)
  have b: "a0Sample large_reading (a0Reads large_reading) = 10000"
    by (simp add: large_reading_def demo_def)
  have c: "a0Reads large_reading = 0" "trace demo = []" "publishResult demo (publishCalls demo)"
    by (simp_all add: large_reading_def demo_def)
  show ?thesis
    using C10_status_buffer [OF a] C10_status_buffer [OF b] a b c
    by (simp add: itoa_examples a0_publishes_def MQTTClientID_def MQTT_CLIENT_ID_def)
qed

text \<open>
  The claim as written says that every negative reading overruns the buffer. The
  reading -1 does not: it takes three bytes and is published as \<open>-1\<close>.
\<close>

theorem C10_negative_fits:
  "a0Sample negative_reading (a0Reads negative_reading) = - 1
   \<and> length (itoa (- 1)) + 1 = 3
   \<and> itoa_into 5 (- 1) = Some ''-1''
   \<and> a0_publishes (trace (world_of (mqttPublishA0Status negative_reading))) =
        [MqttPublish ''Arduino/status/A0'' ''-1'' True True]"
  by (simp add: negative_reading_def demo_def itoa_into_def itoa_examples mqttPublishA0Status_def
      prims a0_publishes_def MQTTClientID_def MQTT_CLIENT_ID_def cstr_def)

section \<open>The periodic check\<close>

lemma check_unfold:
  "mqttCheckAndReportStatus s =
     andThen
       (if \<bar>a0Sample s (a0Reads s) - previousA0Value s\<bar> > 100
        then mqttPublishA0Status (s\<lparr>a0Reads := Suc (a0Reads s)\<rparr>)
        else Returns (s\<lparr>a0Reads := Suc (a0Reads s)\<rparr>))
       (\<lambda>s2. if (if ledPin s2 then HIGH else LOW) \<noteq> previousLEDValue s2
             then mqttPublishLEDStatus s2 else Returns s2)"
  by (simp add: mqttCheckAndReportStatus_def analogRead_A0_def digitalRead_LED_def)

lemma a0_publishes_simps:
  "a0_publishes (xs @ ys) = a0_publishes xs @ a0_publishes ys"
  "a0_publishes [] = []"
  "a0_publishes (MqttPublish (MQTTClientID @ ''/status/A0'') p r ok # xs) =
     MqttPublish (MQTTClientID @ ''/status/A0'') p r ok # a0_publishes xs"
  "a0_publishes (MqttPublish (MQTTClientID @ ''/status/LED'') p r ok # xs) = a0_publishes xs"
  "a0_publishes (SerialOut str # xs) = a0_publishes xs"
  "a0_publishes (DigitalWrite v # xs) = a0_publishes xs"
  by (simp_all add: a0_publishes_def)

lemma led_publishes_simps:
  "led_publishes (xs @ ys) = led_publishes xs @ led_publishes ys"
  "led_publishes [] = []"
  "led_publishes (MqttPublish (MQTTClientID @ ''/status/LED'') p r ok # xs) =
     MqttPublish (MQTTClientID @ ''/status/LED'') p r ok # led_publishes xs"
  "led_publishes (MqttPublish (MQTTClientID @ ''/status/A0'') p r ok # xs) = led_publishes xs"
  "led_publishes (SerialOut str # xs) = led_publishes xs"
  "led_publishes (DigitalWrite v # xs) = led_publishes xs"
  by (simp_all add: led_publishes_def)

lemma check_quiet:
  assumes "\<bar>a0Sample s (a0Reads s) - previousA0Value s\<bar> \<le> 100"
  shows "\<exists>s'. mqttCheckAndReportStatus s = Returns s'
     \<and> a0_publishes (trace s') = a0_publishes (trace s)
     \<and> previousA0Value s' = previousA0Value s"
  using assms
  by (simp add: check_unfold mqttPublishLEDStatus_eq a0_publishes_simps)

lemma check_triggered:
  assumes "\<bar>a0Sample s (a0Reads s) - previousA0Value s\<bar> > 100"
    and "- 999 \<le> a0Sample s (Suc (a0Reads s))" and "a0Sample s (Suc (a0Reads s)) \<le> 9999"
  shows "\<exists>s'. mqttCheckAndReportStatus s = Returns s'
     \<and> a0_publishes (trace s') = a0_publishes (trace s) @
          [MqttPublish (MQTTClientID @ ''/status/A0'') (itoa (a0Sample s (Suc (a0Reads s)))) True
             (publishResult s (publishCalls s))]
     \<and> previousA0Value s' =
          (if publishResult s (publishCalls s) then a0Sample s (Suc (a0Reads s))
           else previousA0Value s)"
  using assms
  by (simp add: check_unfold mqttPublishA0Status_fits mqttPublishLEDStatus_eq a0_publishes_simps)



text \<open>
  Claim C2, as amended. The periodic check compares its reading with the cached
  \<open>previousA0Value\<close>, not with the reading before it. When the two differ by at
  most 100 no A0 status is published and the cached value stays. When they differ
  by more than 100 exactly one A0 publish is attempted; its payload is a second
  reading taken in \<open>mqttPublishA0Status\<close>, and the cached value becomes that
  second reading if the publish succeeds and stays if it fails.
\<close>

theorem C2_threshold_against_cache:
  "(\<bar>a0Sample s (a0Reads s) - previousA0Value s\<bar> \<le> 100 \<longrightarrow>
      (\<exists>s'. mqttCheckAndReportStatus s = Returns s'
         \<and> a0_publishes (trace s') = a0_publishes (trace s)
         \<and> previousA0Value s' = previousA0Value s))
   \<and> (100 < \<bar>a0Sample s (a0Reads s) - previousA0Value s\<bar>
        \<and> - 999 \<le> a0Sample s (Suc (a0Reads s)) \<and> a0Sample s (Suc (a0Reads s)) \<le> 9999 \<longrightarrow>
      (\<exists>s'. mqttCheckAndReportStatus s = Returns s'
         \<and> a0_publishes (trace s') = a0_publishes (trace s) @
              [MqttPublish (MQTTClientID @ ''/status/A0'')
                 (itoa (a0Sample s (Suc (a0Reads s)))) True (publishResult s (publishCalls s))]
         \<and> previousA0Value s' =
              (if publishResult s (publishCalls s) then a0Sample s (Suc (a0Reads s))
               else previousA0Value s)))"
  using check_quiet [of s] check_triggered [of s] by blast

lemma check_demo:
  "mqttCheckAndReportStatus demo =
     Returns (demo\<lparr>previousA0Value := 512, publishCalls := 1, a0Reads := 2,
       trace := [MqttPublish ''Arduino/status/A0'' ''512'' True True,
         SerialOut ''Status published: '', SerialOut ''Arduino/status/A0'', SerialOut '' '',
         SerialOut (''512'' @ [CHR 0x0D, CHR 0x0A])]\<rparr>)"
  by (simp add: check_unfold mqttPublishA0Status_fits mqttPublishLEDStatus_eq demo_def
      itoa_examples MQTTClientID_def MQTT_CLIENT_ID_def LOW_def HIGH_def)

lemma demo_fields:
  "previousA0Value demo = 0" "previousLEDValue demo = LOW" "ledPin demo = False"
  "a0Reads demo = 0" "publishCalls demo = 0" "trace demo = []"
  "a0Sample demo = (\<lambda>k. 512)" "publishResult demo = (\<lambda>k. True)"
  by (simp_all add: demo_def)

lemma check_drift:
  "mqttCheckAndReportStatus drift = Returns (drift\<lparr>a0Reads := 1\<rparr>)"
  by (simp add: check_unfold mqttPublishLEDStatus_eq drift_def demo_def LOW_def HIGH_def)

lemma check_drift_again:
  "mqttCheckAndReportStatus (drift\<lparr>a0Reads := 1\<rparr>) =
     Returns (drift\<lparr>previousA0Value := 130, publishCalls := 1, a0Reads := 3,
       trace := [MqttPublish ''Arduino/status/A0'' ''130'' True True,
         SerialOut ''Status published: '', SerialOut ''Arduino/status/A0'', SerialOut '' '',
         SerialOut (''130'' @ [CHR 0x0D, CHR 0x0A])]\<rparr>)"
  by (simp add: check_unfold mqttPublishA0Status_fits mqttPublishLEDStatus_eq drift_def demo_def
      itoa_def utoa10.simps digit_char_def MQTTClientID_def MQTT_CLIENT_ID_def LOW_def HIGH_def)

text \<open>A check that stays quiet (reading 60) and one that publishes (reading 512).\<close>

theorem C2_threshold_against_cache_witness:
  "\<bar>a0Sample drift (a0Reads drift) - previousA0Value drift\<bar> \<le> 100
   \<and> (\<exists>s'. mqttCheckAndReportStatus drift = Returns s'
         \<and> a0_publishes (trace s') = [] \<and> previousA0Value s' = 0)
   \<and> 100 < \<bar>a0Sample demo (a0Reads demo) - previousA0Value demo\<bar>
   \<and> - 999 \<le> a0Sample demo (Suc (a0Reads demo)) \<and> a0Sample demo (Suc (a0Reads demo)) \<le> 9999
   \<and> (\<exists>s'. mqttCheckAndReportStatus demo = Returns s'
         \<and> a0_publishes (trace s') = [MqttPublish ''Arduino/status/A0'' ''512'' True True]
         \<and> previousA0Value s' = 512)"
  using C2_threshold_against_cache [of drift] C2_threshold_against_cache [of demo]
  by (simp add: demo_fields drift_def a0_publishes_simps itoa_examples
      MQTTClientID_def MQTT_CLIENT_ID_def)

text \<open>
  The claim as written fails on the readings 60, 120, 130 with the cached value 0:
  the consecutive readings 60 and 120 differ by 60, yet the second check
  publishes, and what it publishes and caches is 130, not 120.
\<close>

theorem C2_consecutive_readings_counterexample:
  "a0Sample drift 0 = 60 \<and> a0Sample drift 1 = 120 \<and> a0Sample drift 2 = 130
   \<and> \<bar>a0Sample drift 1 - a0Sample drift 0\<bar> \<le> 100
   \<and> previousA0Value drift = 0
   \<and> a0_publishes (trace (world_of (mqttCheckAndReportStatus drift))) = []
   \<and> a0_publishes (trace (world_of (mqttCheckAndReportStatus
         (world_of (mqttCheckAndReportStatus drift))))) =
        [MqttPublish ''Arduino/status/A0'' ''130'' True True]
   \<and> previousA0Value (world_of (mqttCheckAndReportStatus
         (world_of (mqttCheckAndReportStatus drift)))) = 130"
proof -
  have one: "world_of (mqttCheckAndReportStatus drift) = drift\<lparr>a0Reads := 1\<rparr>"
    by (simp only: check_drift world_of.simps)
  have two: "world_of (mqttCheckAndReportStatus (world_of (mqttCheckAndReportStatus drift))) =
      drift\<lparr>previousA0Value := 130, publishCalls := 1, a0Reads := 3,
       trace := [MqttPublish ''Arduino/status/A0'' ''130'' True True,
         SerialOut ''Status published: '', SerialOut ''Arduino/status/A0'', SerialOut '' '',
         SerialOut (''130'' @ [CHR 0x0D, CHR 0x0A])]\<rparr>"
    by (simp only: one check_drift_again world_of.simps)
  have three: "a0Sample drift 0 = 60" "a0Sample drift 1 = 120" "a0Sample drift 2 = 130"
    "a0Sample drift (Suc 0) = 120" "previousA0Value drift = 0" "trace drift = []"
    by (simp_all add: drift_def demo_def)
  have four: "a0_publishes (trace (world_of (mqttCheckAndReportStatus drift))) = []"
    by (simp only: one) (simp add: three a0_publishes_def)
  have five: "a0_publishes (trace (world_of (mqttCheckAndReportStatus
         (world_of (mqttCheckAndReportStatus drift))))) =
        [MqttPublish ''Arduino/status/A0'' ''130'' True True]"
    by (simp only: two) (simp add: a0_publishes_def MQTTClientID_def MQTT_CLIENT_ID_def)
  have six: "previousA0Value (world_of (mqttCheckAndReportStatus
         (world_of (mqttCheckAndReportStatus drift)))) = 130"
    by (simp only: two) simp
  show ?thesis
    by (simp only: four five six) (simp add: three)
qed

section \<open>Publish failures and fresh reads\<close>












lemma mqttCommandReceived_A0_get:
  "mqttCommandReceived (MQTTClientID @ ''/command/A0'') ''get'' s =
     mqttPublishA0Status (s\<lparr>trace := trace s @
        [SerialOut ''Command received: '', SerialOut (MQTTClientID @ ''/command/A0''),
         SerialOut '' '', SerialOut (''get'' @ [CHR 0x0D, CHR 0x0A])]\<rparr>)"
  by (simp add: mqttCommandReceived_def strcmp_zero_iff cstr_topics prims cstr_Nil cstr_Cons)

lemma mqttCommandReceived_LED_get:
  "mqttCommandReceived (MQTTClientID @ ''/command/LED'') ''get'' s =
     mqttPublishLEDStatus (s\<lparr>trace := trace s @
        [SerialOut ''Command received: '', SerialOut (MQTTClientID @ ''/command/LED''),
         SerialOut '' '', SerialOut (''get'' @ [CHR 0x0D, CHR 0x0A])]\<rparr>)"
  by (simp add: mqttCommandReceived_def strcmp_zero_iff cstr_topics prims cstr_Nil cstr_Cons)

lemma check_jitter:
  "mqttCheckAndReportStatus jitter =
     Returns (jitter\<lparr>previousA0Value := 40, publishCalls := 1, a0Reads := 2,
       trace := [MqttPublish ''Arduino/status/A0'' ''40'' True True,
         SerialOut ''Status published: '', SerialOut ''Arduino/status/A0'', SerialOut '' '',
         SerialOut (''40'' @ [CHR 0x0D, CHR 0x0A])]\<rparr>)"
  by (simp add: check_unfold mqttPublishA0Status_fits mqttPublishLEDStatus_eq jitter_def demo_def
      itoa_def utoa10.simps digit_char_def MQTTClientID_def MQTT_CLIENT_ID_def LOW_def HIGH_def)

text \<open>
  Claim C9. Both publish routines read the hardware themselves. Whether called
  directly, by a \<open>get\<close> command or by the periodic check, the A0 routine
  publishes and caches the sample it reads at that moment: after a check that
  triggered on the sample at position \<open>a0Reads\<close> this is the next sample, at
  \<open>a0Reads + 1\<close>. The LED routine publishes and caches the pin level it reads.
  On the board \<open>jitter\<close> the check triggers on 150 and publishes and caches 40,
  which differs from 150 and is within 100 of the old cached value 0.
\<close>

theorem C9_fresh_read_at_publish:
  "(- 999 \<le> a0Sample s (a0Reads s) \<and> a0Sample s (a0Reads s) \<le> 9999 \<longrightarrow>
      (\<exists>s'. mqttPublishA0Status s = Returns s'
         \<and> a0_publishes (trace s') = a0_publishes (trace s) @
              [MqttPublish (MQTTClientID @ ''/status/A0'') (itoa (a0Sample s (a0Reads s))) True
                 (publishResult s (publishCalls s))]
         \<and> previousA0Value s' =
              (if publishResult s (publishCalls s) then a0Sample s (a0Reads s)
               else previousA0Value s))
    \<and> (\<exists>s'. mqttCommandReceived (MQTTClientID @ ''/command/A0'') ''get'' s = Returns s'
         \<and> a0_publishes (trace s') = a0_publishes (trace s) @
              [MqttPublish (MQTTClientID @ ''/status/A0'') (itoa (a0Sample s (a0Reads s))) True
                 (publishResult s (publishCalls s))]
         \<and> previousA0Value s' =
              (if publishResult s (publishCalls s) then a0Sample s (a0Reads s)
               else previousA0Value s)))
   \<and> (100 < \<bar>a0Sample s (a0Reads s) - previousA0Value s\<bar>
        \<and> - 999 \<le> a0Sample s (Suc (a0Reads s)) \<and> a0Sample s (Suc (a0Reads s)) \<le> 9999 \<longrightarrow>
      (\<exists>s'. mqttCheckAndReportStatus s = Returns s'
         \<and> a0_publishes (trace s') = a0_publishes (trace s) @
              [MqttPublish (MQTTClientID @ ''/status/A0'')
                 (itoa (a0Sample s (Suc (a0Reads s)))) True (publishResult s (publishCalls s))]
         \<and> previousA0Value s' =
              (if publishResult s (publishCalls s) then a0Sample s (Suc (a0Reads s))
               else previousA0Value s)))
   \<and> (\<exists>s'. mqttPublishLEDStatus s = Returns s'
         \<and> led_publishes (trace s') = led_publishes (trace s) @
              [MqttPublish (MQTTClientID @ ''/status/LED'')
                 (if digitalRead_LED s = HIGH then ''on'' else ''off'') True
                 (publishResult s (publishCalls s))]
         \<and> previousLEDValue s' =
              (if publishResult s (publishCalls s) then digitalRead_LED s
               else previousLEDValue s))
   \<and> (\<exists>s'. mqttCommandReceived (MQTTClientID @ ''/command/LED'') ''get'' s = Returns s'
         \<and> led_publishes (trace s') = led_publishes (trace s) @
              [MqttPublish (MQTTClientID @ ''/status/LED'')
                 (if digitalRead_LED s = HIGH then ''on'' else ''off'') True
                 (publishResult s (publishCalls s))]
         \<and> previousLEDValue s' =
              (if publishResult s (publishCalls s) then digitalRead_LED s
               else previousLEDValue s))
   \<and> 100 < \<bar>a0Sample jitter (a0Reads jitter) - previousA0Value jitter\<bar>
   \<and> a0Sample jitter (Suc (a0Reads jitter)) \<noteq> a0Sample jitter (a0Reads jitter)
   \<and> \<bar>a0Sample jitter (Suc (a0Reads jitter)) - previousA0Value jitter\<bar> \<le> 100
   \<and> a0_publishes (trace (world_of (mqttCheckAndReportStatus jitter))) =
        [MqttPublish (MQTTClientID @ ''/status/A0'') ''40'' True True]
   \<and> previousA0Value (world_of (mqttCheckAndReportStatus jitter)) = 40"
proof (intro conjI impI)
  assume r: "- 999 \<le> a0Sample s (a0Reads s) \<and> a0Sample s (a0Reads s) \<le> 9999"
  then show "\<exists>s'. mqttPublishA0Status s = Returns s'
         \<and> a0_publishes (trace s') = a0_publishes (trace s) @
              [MqttPublish (MQTTClientID @ ''/status/A0'') (itoa (a0Sample s (a0Reads s))) True
                 (publishResult s (publishCalls s))]
         \<and> previousA0Value s' =
              (if publishResult s (publishCalls s) then a0Sample s (a0Reads s)
               else previousA0Value s)"
    by (simp add: mqttPublishA0Status_fits a0_publishes_simps)
  from r show "\<exists>s'. mqttCommandReceived (MQTTClientID @ ''/command/A0'') ''get'' s = Returns s'
         \<and> a0_publishes (trace s') = a0_publishes (trace s) @
              [MqttPublish (MQTTClientID @ ''/status/A0'') (itoa (a0Sample s (a0Reads s))) True
                 (publishResult s (publishCalls s))]
         \<and> previousA0Value s' =
              (if publishResult s (publishCalls s) then a0Sample s (a0Reads s)
               else previousA0Value s)"
    by (simp add: mqttCommandReceived_A0_get mqttPublishA0Status_fits a0_publishes_simps)
next
  assume "100 < \<bar>a0Sample s (a0Reads s) - previousA0Value s\<bar>
        \<and> - 999 \<le> a0Sample s (Suc (a0Reads s)) \<and> a0Sample s (Suc (a0Reads s)) \<le> 9999"
  then show "\<exists>s'. mqttCheckAndReportStatus s = Returns s'
         \<and> a0_publishes (trace s') = a0_publishes (trace s) @
              [MqttPublish (MQTTClientID @ ''/status/A0'')
                 (itoa (a0Sample s (Suc (a0Reads s)))) True (publishResult s (publishCalls s))]
         \<and> previousA0Value s' =
              (if publishResult s (publishCalls s) then a0Sample s (Suc (a0Reads s))
               else previousA0Value s)"
    using check_triggered [of s] by simp
next
  show "\<exists>s'. mqttPublishLEDStatus s = Returns s'
         \<and> led_publishes (trace s') = led_publishes (trace s) @
              [MqttPublish (MQTTClientID @ ''/status/LED'')
                 (if digitalRead_LED s = HIGH then ''on'' else ''off'') True
                 (publishResult s (publishCalls s))]
         \<and> previousLEDValue s' =
              (if publishResult s (publishCalls s) then digitalRead_LED s
               else previousLEDValue s)"
    by (simp add: mqttPublishLEDStatus_eq led_publishes_simps digitalRead_LED_def HIGH_def LOW_def)
  show "\<exists>s'. mqttCommandReceived (MQTTClientID @ ''/command/LED'') ''get'' s = Returns s'
         \<and> led_publishes (trace s') = led_publishes (trace s) @
              [MqttPublish (MQTTClientID @ ''/status/LED'')
                 (if digitalRead_LED s = HIGH then ''on'' else ''off'') True
                 (publishResult s (publishCalls s))]
         \<and> previousLEDValue s' =
              (if publishResult s (publishCalls s) then digitalRead_LED s
               else previousLEDValue s)"
    by (simp add: mqttCommandReceived_LED_get mqttPublishLEDStatus_eq led_publishes_simps
        digitalRead_LED_def HIGH_def LOW_def)
next
  show "100 < \<bar>a0Sample jitter (a0Reads jitter) - previousA0Value jitter\<bar>"
    "a0Sample jitter (Suc (a0Reads jitter)) \<noteq> a0Sample jitter (a0Reads jitter)"
    "\<bar>a0Sample jitter (Suc (a0Reads jitter)) - previousA0Value jitter\<bar> \<le> 100"
    by (simp_all add: jitter_def demo_def)
  show "a0_publishes (trace (world_of (mqttCheckAndReportStatus jitter))) =
        [MqttPublish (MQTTClientID @ ''/status/A0'') ''40'' True True]"
    by (simp add: check_jitter a0_publishes_def MQTTClientID_def MQTT_CLIENT_ID_def)
  show "previousA0Value (world_of (mqttCheckAndReportStatus jitter)) = 40"
    by (simp add: check_jitter)
qed

text \<open>The demo board, whose converter reads 512.\<close>

theorem C9_fresh_read_at_publish_witness:
  "- 999 \<le> a0Sample demo (a0Reads demo) \<and> a0Sample demo (a0Reads demo) \<le> 9999
   \<and> (\<exists>s'. mqttPublishA0Status demo = Returns s'
         \<and> a0_publishes (trace s') = [MqttPublish ''Arduino/status/A0'' ''512'' True True]
         \<and> previousA0Value s' = 512)
   \<and> 100 < \<bar>a0Sample demo (a0Reads demo) - previousA0Value demo\<bar>
   \<and> - 999 \<le> a0Sample demo (Suc (a0Reads demo)) \<and> a0Sample demo (Suc (a0Reads demo)) \<le> 9999
   \<and> (\<exists>s'. mqttCheckAndReportStatus demo = Returns s'
         \<and> a0_publishes (trace s') = [MqttPublish ''Arduino/status/A0'' ''512'' True True]
         \<and> previousA0Value s' = 512)"
  using C9_fresh_read_at_publish [of demo]
  by (simp add: demo_fields a0_publishes_simps itoa_examples MQTTClientID_def MQTT_CLIENT_ID_def)

section \<open>The three waiting loops\<close>

lemma connect_while_done:
  "brokerLink s \<Longrightarrow> connectMQTTBroker_while s = Some s"
  by (subst connectMQTTBroker_while.simps) (simp add: mqttClient_connected_def)

lemma connect_while_ok:
  assumes "\<not> brokerLink s" and "connectResult s (connectCalls s)"
  shows "connectMQTTBroker_while s =
    Some (s\<lparr>brokerLink := True, connectCalls := Suc (connectCalls s),
      trace := trace s @
        [MqttConnect MQTTClientID MQTTBrokerUsername MQTTBrokerPassword True,
         SerialOut (''connected.'' @ [CHR 0x0D, CHR 0x0A])]\<rparr>)"
  using assms
  by (subst connectMQTTBroker_while.simps)
    (simp add: mqttClient_connected_def mqttClient_connect_def prims cstr_Nil cstr_Cons
      connect_while_done)

lemma connect_while_retry:
  assumes "\<not> brokerLink s" and "\<not> connectResult s (connectCalls s)"
  shows "connectMQTTBroker_while s =
    connectMQTTBroker_while (s\<lparr>connectCalls := Suc (connectCalls s), brokerLink := False,
      trace := trace s @
        [MqttConnect MQTTClientID MQTTBrokerUsername MQTTBrokerPassword False,
         Delay 1000, SerialOut ''.'']\<rparr>)"
  using assms
  by (subst connectMQTTBroker_while.simps)
    (simp add: mqttClient_connected_def mqttClient_connect_def prims delay_def cstr_Nil cstr_Cons)

lemma connect_while_after:
  assumes "\<not> brokerLink s"
    and "\<forall>j<k. \<not> connectResult s (connectCalls s + j)"
    and "connectResult s (connectCalls s + k)"
  shows "connectMQTTBroker_while s =
    Some (s\<lparr>brokerLink := True, connectCalls := connectCalls s + k + 1,
      trace := trace s @
        concat (replicate k
          [MqttConnect MQTTClientID MQTTBrokerUsername MQTTBrokerPassword False,
           Delay 1000, SerialOut ''.'']) @
        [MqttConnect MQTTClientID MQTTBrokerUsername MQTTBrokerPassword True,
         SerialOut (''connected.'' @ [CHR 0x0D, CHR 0x0A])]\<rparr>)"
  using assms
proof (induction k arbitrary: s)
  case 0
  then show ?case by (simp add: connect_while_ok)
next
  case (Suc k)
  let ?s1 = "s\<lparr>connectCalls := Suc (connectCalls s), brokerLink := False,
      trace := trace s @
        [MqttConnect MQTTClientID MQTTBrokerUsername MQTTBrokerPassword False,
         Delay 1000, SerialOut ''.'']\<rparr>"
  from Suc.prems have first: "\<not> connectResult s (connectCalls s)" by force
  have a: "\<not> brokerLink ?s1" by simp
  have b: "\<forall>j<k. \<not> connectResult ?s1 (connectCalls ?s1 + j)"
    using Suc.prems(2) by auto
  have c: "connectResult ?s1 (connectCalls ?s1 + k)"
    using Suc.prems(3) by simp
  have "connectMQTTBroker_while s = connectMQTTBroker_while ?s1"
    using Suc.prems(1) first by (rule connect_while_retry)
  also note Suc.IH [OF a b c]
  finally show ?case by simp
qed

lemma connect_while_returns:
  assumes "connectMQTTBroker_while s = Some s'"
  shows "brokerLink s \<or> (\<exists>k. connectResult s (connectCalls s + k))"
proof (rule connectMQTTBroker_while.raw_induct
    [where P = "\<lambda>s s'. brokerLink s \<or> (\<exists>k. connectResult s (connectCalls s + k))"
       and s = s and y = s'])
  show "connectMQTTBroker_while s = Some s'" by (rule assms)
next
  fix loop :: "world \<Rightarrow> world option" and s s'
  assume IH: "\<And>x y. loop x = Some y \<Longrightarrow>
      brokerLink x \<or> (\<exists>k. connectResult x (connectCalls x + k))"
  assume body: "(if \<not> mqttClient_connected s then
        (if fst (mqttClient_connect MQTTClientID MQTTBrokerUsername MQTTBrokerPassword s) then
           loop
             ((if DEBUG then Serial_println ''connected.'' else id)
                (snd (mqttClient_connect MQTTClientID MQTTBrokerUsername MQTTBrokerPassword s)))
         else
           loop
             ((if DEBUG then Serial_print ''.'' else id)
                (delay 1000
                   (snd (mqttClient_connect MQTTClientID MQTTBrokerUsername MQTTBrokerPassword s)))))
      else Some s) = Some s'"
  show "brokerLink s \<or> (\<exists>k. connectResult s (connectCalls s + k))"
  proof (cases "brokerLink s \<or> connectResult s (connectCalls s)")
    case True
    then have "brokerLink s \<or> connectResult s (connectCalls s + 0)" by simp
    then show ?thesis by blast
  next
    case False
    let ?s1 = "s\<lparr>connectCalls := Suc (connectCalls s), brokerLink := False,
      trace := trace s @
        [MqttConnect MQTTClientID MQTTBrokerUsername MQTTBrokerPassword False,
         Delay 1000, SerialOut ''.'']\<rparr>"
    have "loop ?s1 = Some s'"
      using False body
      by (simp add: mqttClient_connected_def mqttClient_connect_def prims delay_def cstr_Nil
          cstr_Cons)
    then have "brokerLink ?s1 \<or> (\<exists>k. connectResult ?s1 (connectCalls ?s1 + k))"
      by (rule IH)
    then obtain k where "connectResult s (Suc (connectCalls s) + k)"
      by auto
    then have "connectResult s (connectCalls s + Suc k)" by simp
    then show ?thesis by blast
  qed
qed

lemma serial_while_ready:
  "serialReady s (serialPolls s) \<Longrightarrow>
   configureSerialMonitor_while s = Some (s\<lparr>serialPolls := Suc (serialPolls s)\<rparr>)"
  by (subst configureSerialMonitor_while.simps) simp

lemma serial_while_retry:
  "\<not> serialReady s (serialPolls s) \<Longrightarrow>
   configureSerialMonitor_while s =
     configureSerialMonitor_while (s\<lparr>serialPolls := Suc (serialPolls s)\<rparr>)"
  by (subst configureSerialMonitor_while.simps) simp

lemma serial_while_after:
  assumes "\<forall>j<k. \<not> serialReady s (serialPolls s + j)"
    and "serialReady s (serialPolls s + k)"
  shows "configureSerialMonitor_while s = Some (s\<lparr>serialPolls := serialPolls s + k + 1\<rparr>)"
  using assms
proof (induction k arbitrary: s)
  case 0
  then show ?case by (simp add: serial_while_ready)
next
  case (Suc k)
  let ?s1 = "s\<lparr>serialPolls := Suc (serialPolls s)\<rparr>"
  from Suc.prems have first: "\<not> serialReady s (serialPolls s)" by force
  have b: "\<forall>j<k. \<not> serialReady ?s1 (serialPolls ?s1 + j)"
    using Suc.prems(1) by auto
  have c: "serialReady ?s1 (serialPolls ?s1 + k)"
    using Suc.prems(2) by simp
  have "configureSerialMonitor_while s = configureSerialMonitor_while ?s1"
    using first by (rule serial_while_retry)
  also note Suc.IH [OF b c]
  finally show ?case by simp
qed

lemma serial_while_returns:
  assumes "configureSerialMonitor_while s = Some s'"
  shows "\<exists>k. serialReady s (serialPolls s + k)"
proof (rule configureSerialMonitor_while.raw_induct
    [where P = "\<lambda>s s'. \<exists>k. serialReady s (serialPolls s + k)" and s = s and y = s'])
  show "configureSerialMonitor_while s = Some s'" by (rule assms)
next
  fix loop :: "world \<Rightarrow> world option" and s s'
  assume IH: "\<And>x y. loop x = Some y \<Longrightarrow> \<exists>k. serialReady x (serialPolls x + k)"
  assume body: "(if \<not> serialReady s (serialPolls s)
      then loop (s\<lparr>serialPolls := Suc (serialPolls s)\<rparr>)
      else Some (s\<lparr>serialPolls := Suc (serialPolls s)\<rparr>)) = Some s'"
  show "\<exists>k. serialReady s (serialPolls s + k)"
  proof (cases "serialReady s (serialPolls s)")
    case True
    then have "serialReady s (serialPolls s + 0)" by simp
    then show ?thesis by blast
  next
    case False
    let ?s1 = "s\<lparr>serialPolls := Suc (serialPolls s)\<rparr>"
    have "loop ?s1 = Some s'" using False body by simp
    then have "\<exists>k. serialReady ?s1 (serialPolls ?s1 + k)" by (rule IH)
    then obtain k where "serialReady s (Suc (serialPolls s) + k)" by auto
    then have "serialReady s (serialPolls s + Suc k)" by simp
    then show ?thesis by blast
  qed
qed

lemma wifi_while_connected:
  "wifiStatus s (wifiPolls s) = WL_CONNECTED \<Longrightarrow>
   connectWiFiNetwork_while s = Some (s\<lparr>wifiPolls := Suc (wifiPolls s)\<rparr>)"
  by (subst connectWiFiNetwork_while.simps) (simp add: WiFi_status_def)

lemma wifi_while_retry:
  "wifiStatus s (wifiPolls s) \<noteq> WL_CONNECTED \<Longrightarrow>
   connectWiFiNetwork_while s =
     connectWiFiNetwork_while (s\<lparr>wifiPolls := Suc (wifiPolls s),
       trace := trace s @ [Delay 1000, SerialOut ''.'']\<rparr>)"
  by (subst connectWiFiNetwork_while.simps)
    (simp add: WiFi_status_def prims delay_def cstr_Nil cstr_Cons)

lemma wifi_while_after:
  assumes "\<forall>j<k. wifiStatus s (wifiPolls s + j) \<noteq> WL_CONNECTED"
    and "wifiStatus s (wifiPolls s + k) = WL_CONNECTED"
  shows "connectWiFiNetwork_while s =
    Some (s\<lparr>wifiPolls := wifiPolls s + k + 1,
      trace := trace s @ concat (replicate k [Delay 1000, SerialOut ''.''])\<rparr>)"
  using assms
proof (induction k arbitrary: s)
  case 0
  then show ?case by (simp add: wifi_while_connected)
next
  case (Suc k)
  let ?s1 = "s\<lparr>wifiPolls := Suc (wifiPolls s),
       trace := trace s @ [Delay 1000, SerialOut ''.'']\<rparr>"
  from Suc.prems have first: "wifiStatus s (wifiPolls s) \<noteq> WL_CONNECTED" by force
  have b: "\<forall>j<k. wifiStatus ?s1 (wifiPolls ?s1 + j) \<noteq> WL_CONNECTED"
    using Suc.prems(1) by auto
  have c: "wifiStatus ?s1 (wifiPolls ?s1 + k) = WL_CONNECTED"
    using Suc.prems(2) by simp
  have "connectWiFiNetwork_while s = connectWiFiNetwork_while ?s1"
    using first by (rule wifi_while_retry)
  also note Suc.IH [OF b c]
  finally show ?case by simp
qed

lemma wifi_while_returns:
  assumes "connectWiFiNetwork_while s = Some s'"
  shows "\<exists>k. wifiStatus s (wifiPolls s + k) = WL_CONNECTED"
proof (rule connectWiFiNetwork_while.raw_induct
    [where P = "\<lambda>s s'. \<exists>k. wifiStatus s (wifiPolls s + k) = WL_CONNECTED" and s = s and y = s'])
  show "connectWiFiNetwork_while s = Some s'" by (rule assms)
next
  fix loop :: "world \<Rightarrow> world option" and s s'
  assume IH: "\<And>x y. loop x = Some y \<Longrightarrow> \<exists>k. wifiStatus x (wifiPolls x + k) = WL_CONNECTED"
  assume body: "(if fst (WiFi_status s) \<noteq> WL_CONNECTED then
        loop ((if DEBUG then Serial_print ''.'' else id) (delay 1000 (snd (WiFi_status s))))
      else Some (snd (WiFi_status s))) = Some s'"
  show "\<exists>k. wifiStatus s (wifiPolls s + k) = WL_CONNECTED"
  proof (cases "wifiStatus s (wifiPolls s) = WL_CONNECTED")
    case True
    then have "wifiStatus s (wifiPolls s + 0) = WL_CONNECTED" by simp
    then show ?thesis by blast
  next
    case False
    let ?s1 = "s\<lparr>wifiPolls := Suc (wifiPolls s),
       trace := trace s @ [Delay 1000, SerialOut ''.'']\<rparr>"
    have "loop ?s1 = Some s'"
      using False body by (simp add: WiFi_status_def prims delay_def cstr_Nil cstr_Cons)
    then have "\<exists>k. wifiStatus ?s1 (wifiPolls ?s1 + k) = WL_CONNECTED" by (rule IH)
    then obtain k where "wifiStatus s (Suc (wifiPolls s) + k) = WL_CONNECTED" by auto
    then have "wifiStatus s (wifiPolls s + Suc k) = WL_CONNECTED" by simp
    then show ?thesis by blast
  qed
qed

section \<open>Connecting to the broker\<close>

lemma connectMQTTBroker_unfold:
  "connectMQTTBroker s =
     connectMQTTBroker_while (s\<lparr>trace := trace s @
       [SerialOut ''Connecting to MQTT broker ('', SerialOut MQTTBrokerIP, SerialOut '')...'']\<rparr>)"
  by (simp add: connectMQTTBroker_def prims MQTTBrokerIP_def MQTT_BROKER_IP_def cstr_Nil cstr_Cons)

lemma connectMQTTBroker_after:
  assumes "\<not> brokerLink s"
    and "\<forall>j<k. \<not> connectResult s (connectCalls s + j)"
    and "connectResult s (connectCalls s + k)"
  shows "connectMQTTBroker s =
    Some (s\<lparr>brokerLink := True, connectCalls := connectCalls s + k + 1,
      trace := trace s @
        [SerialOut ''Connecting to MQTT broker ('', SerialOut MQTTBrokerIP, SerialOut '')...''] @
        concat (replicate k
          [MqttConnect MQTTClientID MQTTBrokerUsername MQTTBrokerPassword False,
           Delay 1000, SerialOut ''.'']) @
        [MqttConnect MQTTClientID MQTTBrokerUsername MQTTBrokerPassword True,
         SerialOut (''connected.'' @ [CHR 0x0D, CHR 0x0A])]\<rparr>)"
proof -
  let ?s0 = "s\<lparr>trace := trace s @
       [SerialOut ''Connecting to MQTT broker ('', SerialOut MQTTBrokerIP, SerialOut '')...'']\<rparr>"
  have a: "\<not> brokerLink ?s0" using assms(1) by simp
  have b: "\<forall>j<k. \<not> connectResult ?s0 (connectCalls ?s0 + j)" using assms(2) by simp
  have c: "connectResult ?s0 (connectCalls ?s0 + k)" using assms(3) by simp
  show ?thesis
    unfolding connectMQTTBroker_unfold connect_while_after [OF a b c] by simp
qed

lemma connectMQTTBroker_returns:
  assumes "connectMQTTBroker s = Some s'" and "\<not> brokerLink s"
  shows "\<exists>k. (\<forall>j<k. \<not> connectResult s (connectCalls s + j)) \<and> connectResult s (connectCalls s + k)"
proof -
  from assms(1) have "connectMQTTBroker_while (s\<lparr>trace := trace s @
       [SerialOut ''Connecting to MQTT broker ('', SerialOut MQTTBrokerIP, SerialOut '')...'']\<rparr>)
      = Some s'"
    by (simp only: connectMQTTBroker_unfold)
  from connect_while_returns [OF this] assms(2)
  have "\<exists>k. connectResult s (connectCalls s + k)" by simp
  then have "\<exists>k. connectResult s (connectCalls s + k)
      \<and> (\<forall>j<k. \<not> connectResult s (connectCalls s + j))"
    by (subst (asm) exists_least_iff) simp
  then show ?thesis by blast
qed

text \<open>
  Claim C7. Called while the client is disconnected, as in \<open>setup\<close> and in
  \<open>loop\<close>, \<open>connectMQTTBroker\<close> returns if and only if some connect attempt
  succeeds, and it returns connected. If the first success is attempt \<open>k\<close>
  (counting from 0), it makes exactly \<open>k\<close> failing attempts, each followed by
  \<open>delay(1000)\<close>, and then the successful one. If no attempt succeeds it never
  returns.
\<close>

theorem C7_broker_connect_retry:
  assumes "\<not> brokerLink s"
  shows "((\<exists>s'. connectMQTTBroker s = Some s') \<longleftrightarrow> (\<exists>k. connectResult s (connectCalls s + k)))
    \<and> (\<forall>s'. connectMQTTBroker s = Some s' \<longrightarrow> brokerLink s')
    \<and> (\<forall>k. (\<forall>j<k. \<not> connectResult s (connectCalls s + j)) \<and> connectResult s (connectCalls s + k)
          \<longrightarrow> connectMQTTBroker s =
            Some (s\<lparr>brokerLink := True, connectCalls := connectCalls s + k + 1,
              trace := trace s @
                [SerialOut ''Connecting to MQTT broker ('', SerialOut MQTTBrokerIP,
                 SerialOut '')...''] @
                concat (replicate k
                  [MqttConnect MQTTClientID MQTTBrokerUsername MQTTBrokerPassword False,
                   Delay 1000, SerialOut ''.'']) @
                [MqttConnect MQTTClientID MQTTBrokerUsername MQTTBrokerPassword True,
                 SerialOut (''connected.'' @ [CHR 0x0D, CHR 0x0A])]\<rparr>))"
proof (intro conjI allI impI iffI)
  assume "\<exists>s'. connectMQTTBroker s = Some s'"
  then obtain s' where "connectMQTTBroker s = Some s'" by blast
  from connectMQTTBroker_returns [OF this assms]
  show "\<exists>k. connectResult s (connectCalls s + k)" by blast
next
  assume "\<exists>k. connectResult s (connectCalls s + k)"
  then have "\<exists>k. connectResult s (connectCalls s + k)
      \<and> (\<forall>j<k. \<not> connectResult s (connectCalls s + j))"
    by (subst (asm) exists_least_iff) simp
  then obtain k where "\<forall>j<k. \<not> connectResult s (connectCalls s + j)"
    and "connectResult s (connectCalls s + k)" by blast
  from connectMQTTBroker_after [OF assms this]
  show "\<exists>s'. connectMQTTBroker s = Some s'" by blast
next
  fix s' assume r: "connectMQTTBroker s = Some s'"
  from connectMQTTBroker_returns [OF r assms]
  obtain k where "\<forall>j<k. \<not> connectResult s (connectCalls s + j)"
    and "connectResult s (connectCalls s + k)" by blast
  from connectMQTTBroker_after [OF assms this] r
  show "brokerLink s'" by auto
next
  fix k
  assume "(\<forall>j<k. \<not> connectResult s (connectCalls s + j)) \<and> connectResult s (connectCalls s + k)"
  then show "connectMQTTBroker s =
            Some (s\<lparr>brokerLink := True, connectCalls := connectCalls s + k + 1,
              trace := trace s @
                [SerialOut ''Connecting to MQTT broker ('', SerialOut MQTTBrokerIP,
                 SerialOut '')...''] @
                concat (replicate k
                  [MqttConnect MQTTClientID MQTTBrokerUsername MQTTBrokerPassword False,
                   Delay 1000, SerialOut ''.'']) @
                [MqttConnect MQTTClientID MQTTBrokerUsername MQTTBrokerPassword True,
                 SerialOut (''connected.'' @ [CHR 0x0D, CHR 0x0A])]\<rparr>)"
    using connectMQTTBroker_after [OF assms, of k] by blast
qed

text \<open>
  A broker that accepts the second attempt, and one that never accepts.
\<close>

theorem C7_broker_connect_retry_witness:
  "\<not> brokerLink demo
   \<and> \<not> connectResult demo (connectCalls demo + 0) \<and> connectResult demo (connectCalls demo + 1)
   \<and> connectMQTTBroker demo =
        Some (demo\<lparr>brokerLink := True, connectCalls := 2,
          trace :=
            [SerialOut ''Connecting to MQTT broker ('', SerialOut ''000.000.000.000'',
             SerialOut '')...'',
             MqttConnect ''Arduino'' ''your_username'' ''your_password'' False,
             Delay 1000, SerialOut ''.'',
             MqttConnect ''Arduino'' ''your_username'' ''your_password'' True,
             SerialOut (''connected.'' @ [CHR 0x0D, CHR 0x0A])]\<rparr>)
   \<and> \<not> brokerLink offline
   \<and> connectMQTTBroker offline = None"
proof -
  have a: "\<not> brokerLink demo" "\<not> brokerLink offline"
    by (simp_all add: demo_def offline_def)
  have b: "(\<forall>j<1. \<not> connectResult demo (connectCalls demo + j))
      \<and> connectResult demo (connectCalls demo + 1)"
    by (simp add: demo_def)
  have c: "\<not> (\<exists>k. connectResult offline (connectCalls offline + k))"
    by (simp add: demo_def offline_def)
  note one = C7_broker_connect_retry [OF a(1)]
  note two = C7_broker_connect_retry [OF a(2)]
  from one b have d: "connectMQTTBroker demo =
            Some (demo\<lparr>brokerLink := True, connectCalls := connectCalls demo + 1 + 1,
              trace := trace demo @
                [SerialOut ''Connecting to MQTT broker ('', SerialOut MQTTBrokerIP,
                 SerialOut '')...''] @
                concat (replicate 1
                  [MqttConnect MQTTClientID MQTTBrokerUsername MQTTBrokerPassword False,
                   Delay 1000, SerialOut ''.'']) @
                [MqttConnect MQTTClientID MQTTBrokerUsername MQTTBrokerPassword True,
                 SerialOut (''connected.'' @ [CHR 0x0D, CHR 0x0A])]\<rparr>)"
    by blast
  from two c have e: "connectMQTTBroker offline = None" by auto
  show ?thesis
    using a e by (simp add: d)
      (simp add: demo_def MQTTClientID_def MQTT_CLIENT_ID_def MQTTBrokerIP_def MQTT_BROKER_IP_def
        MQTTBrokerUsername_def MQTT_BROKER_USERNAME_def MQTTBrokerPassword_def
        MQTT_BROKER_PASSWORD_def)
qed

section \<open>A missing WiFi module\<close>

lemma connectWiFiNetwork_no_module:
  assumes "wifiStatus s (wifiPolls s) = WL_NO_MODULE"
  shows "connectWiFiNetwork s =
    Some (Halts (s\<lparr>wifiPolls := Suc (wifiPolls s),
      trace := trace s @
        [SerialOut (''ERROR: Communication with WiFi module failed.'' @ [CHR 0x0D, CHR 0x0A])]\<rparr>))"
  using assms
  by (simp add: connectWiFiNetwork_def WiFi_status_def prims cstr_Nil cstr_Cons)

lemma setup_unfold:
  "setup_ino s =
     (case configureSerialMonitor_while
             (s\<lparr>trace := trace s @ [PinModeOutput, SerialBegin 9600]\<rparr>) of
        None \<Rightarrow> None
      | Some s2 \<Rightarrow>
          andThenO
            (connectWiFiNetwork (s2\<lparr>trace := trace s2 @
               [SetServer MQTTBrokerIP MQTTBrokerPort, SetCallback]\<rparr>))
            (\<lambda>s3. case connectMQTTBroker s3 of
                     None \<Rightarrow> None
                   | Some s4 \<Rightarrow>
                       Some (andThen (andThen (mqttPublishA0Status s4) mqttPublishLEDStatus)
                               (\<lambda>s5. Returns (mqttSubscribeToCommands s5)))))"
  by (simp add: setup_ino_def configureSerialMonitor_def configureMQTTClient_def emit_def DEBUG_def
      split: option.split)

lemma setup_no_module_after:
  assumes "wifiStatus s (wifiPolls s) = WL_NO_MODULE"
    and "\<forall>j<k. \<not> serialReady s (serialPolls s + j)"
    and "serialReady s (serialPolls s + k)"
  shows "setup_ino s =
    Some (Halts (s\<lparr>serialPolls := serialPolls s + k + 1, wifiPolls := Suc (wifiPolls s),
      trace := trace s @
        [PinModeOutput, SerialBegin 9600, SetServer MQTTBrokerIP MQTTBrokerPort, SetCallback,
         SerialOut (''ERROR: Communication with WiFi module failed.'' @
           [CHR 0x0D, CHR 0x0A])]\<rparr>))"
proof -
  let ?s0 = "s\<lparr>trace := trace s @ [PinModeOutput, SerialBegin 9600]\<rparr>"
  have b: "\<forall>j<k. \<not> serialReady ?s0 (serialPolls ?s0 + j)" using assms(2) by simp
  have c: "serialReady ?s0 (serialPolls ?s0 + k)" using assms(3) by simp
  show ?thesis
    unfolding setup_unfold serial_while_after [OF b c]
    using assms(1) by (simp add: connectWiFiNetwork_no_module)
qed

text \<open>
  Claim C8. If \<open>WiFi.status()\<close> answers \<open>WL_NO_MODULE\<close> at the start of
  \<open>connectWiFiNetwork\<close>, the function prints the error and stays in
  \<open>while (true);\<close>. \<open>setup\<close> therefore never returns: once past the wait
  for the serial port it is halted, and all it has done besides debug output is
  \<open>pinMode\<close>, \<open>Serial.begin\<close>, \<open>setServer\<close> and \<open>setCallback\<close>: no
  \<open>WiFi.begin\<close>, no connect, publish, subscribe or message pump.
\<close>

theorem C8_no_wifi_module_halts:
  assumes "wifiStatus s (wifiPolls s) = WL_NO_MODULE"
  shows "connectWiFiNetwork s =
      Some (Halts (s\<lparr>wifiPolls := Suc (wifiPolls s),
        trace := trace s @
          [SerialOut (''ERROR: Communication with WiFi module failed.'' @
             [CHR 0x0D, CHR 0x0A])]\<rparr>))
    \<and> (\<forall>k. (\<forall>j<k. \<not> serialReady s (serialPolls s + j)) \<and> serialReady s (serialPolls s + k) \<longrightarrow>
          setup_ino s =
            Some (Halts (s\<lparr>serialPolls := serialPolls s + k + 1,
              wifiPolls := Suc (wifiPolls s),
              trace := trace s @
                [PinModeOutput, SerialBegin 9600, SetServer MQTTBrokerIP MQTTBrokerPort,
                 SetCallback,
                 SerialOut (''ERROR: Communication with WiFi module failed.'' @
                   [CHR 0x0D, CHR 0x0A])]\<rparr>)))
    \<and> (\<forall>r. setup_ino s = Some r \<longrightarrow>
          (\<exists>w. r = Halts w \<and> io (trace w) =
             io (trace s) @
               [PinModeOutput, SerialBegin 9600, SetServer MQTTBrokerIP MQTTBrokerPort,
                SetCallback]))
    \<and> (\<forall>w. setup_ino s \<noteq> Some (Returns w))"
proof -
  have A: "connectWiFiNetwork s =
      Some (Halts (s\<lparr>wifiPolls := Suc (wifiPolls s),
        trace := trace s @
          [SerialOut (''ERROR: Communication with WiFi module failed.'' @
             [CHR 0x0D, CHR 0x0A])]\<rparr>))"
    using assms by (rule connectWiFiNetwork_no_module)
  have B: "\<forall>k. (\<forall>j<k. \<not> serialReady s (serialPolls s + j)) \<and> serialReady s (serialPolls s + k) \<longrightarrow>
          setup_ino s =
            Some (Halts (s\<lparr>serialPolls := serialPolls s + k + 1,
              wifiPolls := Suc (wifiPolls s),
              trace := trace s @
                [PinModeOutput, SerialBegin 9600, SetServer MQTTBrokerIP MQTTBrokerPort,
                 SetCallback,
                 SerialOut (''ERROR: Communication with WiFi module failed.'' @
                   [CHR 0x0D, CHR 0x0A])]\<rparr>))"
    using setup_no_module_after [OF assms] by blast
  have C: "\<exists>w. r = Halts w \<and> io (trace w) =
             io (trace s) @
               [PinModeOutput, SerialBegin 9600, SetServer MQTTBrokerIP MQTTBrokerPort,
                SetCallback]" if r: "setup_ino s = Some r" for r
  proof -
    from r obtain s2 where "configureSerialMonitor_while
        (s\<lparr>trace := trace s @ [PinModeOutput, SerialBegin 9600]\<rparr>) = Some s2"
      by (auto simp: setup_unfold split: option.splits)
    from serial_while_returns [OF this]
    have "\<exists>k. serialReady s (serialPolls s + k)" by simp
    then have "\<exists>k. serialReady s (serialPolls s + k)
        \<and> (\<forall>j<k. \<not> serialReady s (serialPolls s + j))"
      by (subst (asm) exists_least_iff) simp
    then obtain k where "\<forall>j<k. \<not> serialReady s (serialPolls s + j)"
      and "serialReady s (serialPolls s + k)" by blast
    from setup_no_module_after [OF assms this] r show ?thesis by (auto simp: io_def)
  qed
  from C have D: "\<forall>w. setup_ino s \<noteq> Some (Returns w)" by blast
  from A B C D show ?thesis by blast
qed

text \<open>A board without the module, whose serial port answers at the second poll.\<close>

theorem C8_no_wifi_module_halts_witness:
  "wifiStatus no_module (wifiPolls no_module) = WL_NO_MODULE
   \<and> \<not> serialReady no_module (serialPolls no_module + 0)
   \<and> serialReady no_module (serialPolls no_module + 1)
   \<and> connectWiFiNetwork no_module =
      Some (Halts (no_module\<lparr>wifiPolls := 1,
        trace := [SerialOut (''ERROR: Communication with WiFi module failed.'' @
             [CHR 0x0D, CHR 0x0A])]\<rparr>))
   \<and> setup_ino no_module =
        Some (Halts (no_module\<lparr>serialPolls := 2, wifiPolls := 1,
          trace :=
            [PinModeOutput, SerialBegin 9600, SetServer ''000.000.000.000'' 1883, SetCallback,
             SerialOut (''ERROR: Communication with WiFi module failed.'' @
               [CHR 0x0D, CHR 0x0A])]\<rparr>))"
proof -
  have a: "wifiStatus no_module (wifiPolls no_module) = WL_NO_MODULE"
    by (simp add: no_module_def demo_def)
  have b: "(\<forall>j<1. \<not> serialReady no_module (serialPolls no_module + j))
      \<and> serialReady no_module (serialPolls no_module + 1)"
    by (simp add: no_module_def demo_def)
  note inst = C8_no_wifi_module_halts [OF a]
  from inst b have c: "setup_ino no_module =
            Some (Halts (no_module\<lparr>serialPolls := serialPolls no_module + 1 + 1,
              wifiPolls := Suc (wifiPolls no_module),
              trace := trace no_module @
                [PinModeOutput, SerialBegin 9600, SetServer MQTTBrokerIP MQTTBrokerPort,
                 SetCallback,
                 SerialOut (''ERROR: Communication with WiFi module failed.'' @
                   [CHR 0x0D, CHR 0x0A])]\<rparr>))"
    by blast
  from inst have d: "connectWiFiNetwork no_module =
      Some (Halts (no_module\<lparr>wifiPolls := Suc (wifiPolls no_module),
        trace := trace no_module @
          [SerialOut (''ERROR: Communication with WiFi module failed.'' @
             [CHR 0x0D, CHR 0x0A])]\<rparr>))"
    by blast
  show ?thesis
    by (simp add: c d)
      (simp add: no_module_def demo_def MQTTBrokerIP_def MQTT_BROKER_IP_def MQTTBrokerPort_def
        MQTT_BROKER_PORT_def)
qed

section \<open>One iteration of loop\<close>

lemma mqttSubscribeToCommands_eq:
  "mqttSubscribeToCommands s =
     s\<lparr>subscribeCalls := Suc (subscribeCalls s),
       trace := trace s @
         [MqttSubscribe (MQTTClientID @ ''/command/#'') 1 (subscribeResult s (subscribeCalls s)),
          SerialOut (if subscribeResult s (subscribeCalls s) then ''Subscribed to topic: ''
                     else ''ERROR: Unable to subscribe to topic: ''),
          SerialOut ((MQTTClientID @ ''/command/#'') @ [CHR 0x0D, CHR 0x0A])]\<rparr>"
  by (simp add: mqttSubscribeToCommands_def mqttClient_subscribe_def prims cstr_topics cstr_Nil
      cstr_Cons)

lemma trace_grows_A0: "\<exists>es. trace (world_of (mqttPublishA0Status s)) = trace s @ es"
  by (cases "- 999 \<le> a0Sample s (a0Reads s) \<and> a0Sample s (a0Reads s) \<le> 9999")
    (simp_all add: mqttPublishA0Status_fits mqttPublishA0Status_overrun)

lemma trace_grows_LED: "\<exists>es. trace (world_of (mqttPublishLEDStatus s)) = trace s @ es"
  by (simp add: mqttPublishLEDStatus_eq)

lemma trace_grows_andThen:
  assumes "\<exists>es. trace (world_of x) = tr @ es"
    and "\<And>w. \<exists>es. trace (world_of (f w)) = trace w @ es"
  shows "\<exists>es. trace (world_of (andThen x f)) = tr @ es"
proof (cases x)
  case (Returns w)
  from assms(1) Returns obtain es where a: "trace w = tr @ es" by auto
  from assms(2) [of w] obtain es' where "trace (world_of (f w)) = trace w @ es'" by blast
  with a Returns show ?thesis by simp
qed (use assms(1) in simp_all)

lemma mqttCommandReceived_cases:
  "\<exists>s1 es. trace s1 = trace s @ es
     \<and> (mqttCommandReceived topic payload s = mqttPublishA0Status s1
        \<or> mqttCommandReceived topic payload s = mqttPublishLEDStatus s1
        \<or> mqttCommandReceived topic payload s = Returns s1)"
proof -
  let ?s1 = "s\<lparr>trace := trace s @
        [SerialOut ''Command received: '', SerialOut (cstr topic), SerialOut '' '',
         SerialOut (cstr payload @ [CHR 0x0D, CHR 0x0A])]\<rparr>"
  let ?on = "?s1\<lparr>ledPin := True, trace := trace ?s1 @
        [DigitalWrite HIGH, SerialOut (''Turned on LED.'' @ [CHR 0x0D, CHR 0x0A])]\<rparr>"
  let ?off = "?s1\<lparr>ledPin := False, trace := trace ?s1 @
        [DigitalWrite LOW, SerialOut (''Turned off LED.'' @ [CHR 0x0D, CHR 0x0A])]\<rparr>"
  let ?unk = "?s1\<lparr>trace := trace ?s1 @
        [SerialOut (''ERROR: Unknown command.'' @ [CHR 0x0D, CHR 0x0A])]\<rparr>"
  have "mqttCommandReceived topic payload s = mqttPublishA0Status ?s1
      \<or> mqttCommandReceived topic payload s = mqttPublishLEDStatus ?s1
      \<or> mqttCommandReceived topic payload s = mqttPublishLEDStatus ?on
      \<or> mqttCommandReceived topic payload s = mqttPublishLEDStatus ?off
      \<or> mqttCommandReceived topic payload s = Returns ?unk"
    by (simp add: mqttCommandReceived_def prims cstr_append_NUL cstr_Nil cstr_Cons HIGH_def LOW_def)
  moreover have "trace ?s1 = trace s @ [SerialOut ''Command received: '', SerialOut (cstr topic),
      SerialOut '' '', SerialOut (cstr payload @ [CHR 0x0D, CHR 0x0A])]" by simp
  moreover have "trace ?on = trace s @ [SerialOut ''Command received: '', SerialOut (cstr topic),
      SerialOut '' '', SerialOut (cstr payload @ [CHR 0x0D, CHR 0x0A]),
      DigitalWrite HIGH, SerialOut (''Turned on LED.'' @ [CHR 0x0D, CHR 0x0A])]" by simp
  moreover have "trace ?off = trace s @ [SerialOut ''Command received: '', SerialOut (cstr topic),
      SerialOut '' '', SerialOut (cstr payload @ [CHR 0x0D, CHR 0x0A]),
      DigitalWrite LOW, SerialOut (''Turned off LED.'' @ [CHR 0x0D, CHR 0x0A])]" by simp
  moreover have "trace ?unk = trace s @ [SerialOut ''Command received: '', SerialOut (cstr topic),
      SerialOut '' '', SerialOut (cstr payload @ [CHR 0x0D, CHR 0x0A]),
      SerialOut (''ERROR: Unknown command.'' @ [CHR 0x0D, CHR 0x0A])]" by simp
  ultimately show ?thesis by blast
qed

lemma trace_grows_command:
  "\<exists>es. trace (world_of (mqttCommandReceived topic payload s)) = trace s @ es"
proof -
  from mqttCommandReceived_cases [of s topic payload]
  obtain s1 es where a: "trace s1 = trace s @ es"
    and b: "mqttCommandReceived topic payload s = mqttPublishA0Status s1
        \<or> mqttCommandReceived topic payload s = mqttPublishLEDStatus s1
        \<or> mqttCommandReceived topic payload s = Returns s1" by blast
  from trace_grows_A0 [of s1] trace_grows_LED [of s1] a b show ?thesis
    by (elim disjE exE) auto
qed

lemma trace_grows_check:
  "\<exists>es. trace (world_of (mqttCheckAndReportStatus s)) = trace s @ es"
  unfolding check_unfold
proof (rule trace_grows_andThen)
  show "\<exists>es. trace (world_of
      (if 100 < \<bar>a0Sample s (a0Reads s) - previousA0Value s\<bar>
       then mqttPublishA0Status (s\<lparr>a0Reads := Suc (a0Reads s)\<rparr>)
       else Returns (s\<lparr>a0Reads := Suc (a0Reads s)\<rparr>))) = trace s @ es"
    using trace_grows_A0 [of "s\<lparr>a0Reads := Suc (a0Reads s)\<rparr>"] by simp
next
  fix w
  show "\<exists>es. trace (world_of
      (if (if ledPin w then HIGH else LOW) \<noteq> previousLEDValue w
       then mqttPublishLEDStatus w else Returns w)) = trace w @ es"
    using trace_grows_LED [of w] by simp
qed

lemma trace_grows_pump:
  "\<exists>es. trace (world_of (mqttClient_loop s)) = trace s @ MqttLoop # es"
proof (cases "brokerLink s")
  case False
  then show ?thesis by (simp add: mqttClient_loop_def emit_def)
next
  case True
  let ?s1 = "s\<lparr>trace := trace s @ [MqttLoop], pumpCalls := Suc (pumpCalls s)\<rparr>"
  have u: "mqttClient_loop s =
      andThen (case inbound s (pumpCalls s) of
                 None \<Rightarrow> Returns ?s1
               | Some (topic, payload) \<Rightarrow> mqttCommandReceived topic payload ?s1)
        (\<lambda>s2. Returns (s2\<lparr>brokerLink := \<not> linkLost s2 (pumpCalls s)\<rparr>))"
    using True by (simp add: mqttClient_loop_def emit_def Let_def)
  have "\<exists>es. trace (world_of (mqttClient_loop s)) = (trace s @ [MqttLoop]) @ es"
    unfolding u
  proof (rule trace_grows_andThen)
    show "\<exists>es. trace (world_of (case inbound s (pumpCalls s) of
                 None \<Rightarrow> Returns ?s1
               | Some (topic, payload) \<Rightarrow> mqttCommandReceived topic payload ?s1)) =
          (trace s @ [MqttLoop]) @ es"
    proof (cases "inbound s (pumpCalls s)")
      case None
      then show ?thesis by simp
    next
      case (Some m)
      obtain topic payload where "m = (topic, payload)" by (cases m)
      with Some trace_grows_command [of topic payload ?s1] show ?thesis by simp
    qed
  next
    fix w
    show "\<exists>es. trace (world_of (Returns (w\<lparr>brokerLink := \<not> linkLost w (pumpCalls s)\<rparr>))) =
        trace w @ es" by simp
  qed
  then show ?thesis by simp
qed

lemma loop_unfold:
  "\<not> brokerLink s \<Longrightarrow>
   loop s = (case connectMQTTBroker s of
               None \<Rightarrow> None
             | Some s1 \<Rightarrow>
                 Some (andThen (mqttClient_loop (mqttSubscribeToCommands s1))
                         mqttCheckAndReportStatus))"
  by (simp add: loop_def mqttClient_connected_def split: option.split)

text \<open>
  Claim C6. An iteration of \<open>loop\<close> that finds the client disconnected returns
  whenever some connect attempt succeeds, and in every such iteration the trace
  between its start and the first call of \<open>mqttClient.loop()\<close> is: the connect
  attempts up to the first success, then the subscription to
  \<open>MQTTClientID @ /command/#\<close> with QoS 1. The callback runs only inside
  \<open>mqttClient.loop()\<close>, so no inbound message is handled in between.
\<close>

theorem C6_resubscribe_before_pump:
  assumes "\<not> brokerLink s"
  shows "((\<exists>k. connectResult s (connectCalls s + k)) \<longrightarrow> (\<exists>r. loop s = Some r))
    \<and> (\<forall>r. loop s = Some r \<longrightarrow>
         (\<exists>k ok rest.
            (\<forall>j<k. \<not> connectResult s (connectCalls s + j))
            \<and> connectResult s (connectCalls s + k)
            \<and> trace (world_of r) = trace s @
                [SerialOut ''Connecting to MQTT broker ('', SerialOut MQTTBrokerIP,
                 SerialOut '')...''] @
                concat (replicate k
                  [MqttConnect MQTTClientID MQTTBrokerUsername MQTTBrokerPassword False,
                   Delay 1000, SerialOut ''.'']) @
                [MqttConnect MQTTClientID MQTTBrokerUsername MQTTBrokerPassword True,
                 SerialOut (''connected.'' @ [CHR 0x0D, CHR 0x0A]),
                 MqttSubscribe (MQTTClientID @ ''/command/#'') 1 ok,
                 SerialOut (if ok then ''Subscribed to topic: ''
                            else ''ERROR: Unable to subscribe to topic: ''),
                 SerialOut ((MQTTClientID @ ''/command/#'') @ [CHR 0x0D, CHR 0x0A]),
                 MqttLoop] @ rest))"
proof (intro conjI allI impI)
  assume "\<exists>k. connectResult s (connectCalls s + k)"
  then have "\<exists>k. connectResult s (connectCalls s + k)
      \<and> (\<forall>j<k. \<not> connectResult s (connectCalls s + j))"
    by (subst (asm) exists_least_iff) simp
  then obtain k where "\<forall>j<k. \<not> connectResult s (connectCalls s + j)"
    and "connectResult s (connectCalls s + k)" by blast
  from connectMQTTBroker_after [OF assms this]
  show "\<exists>r. loop s = Some r" by (simp add: loop_unfold [OF assms])
next
  fix r assume r: "loop s = Some r"
  then obtain s1 where c: "connectMQTTBroker s = Some s1"
    and r1: "r = andThen (mqttClient_loop (mqttSubscribeToCommands s1)) mqttCheckAndReportStatus"
    by (auto simp: loop_unfold [OF assms] split: option.splits)
  from connectMQTTBroker_returns [OF c assms]
  obtain k where k: "\<forall>j<k. \<not> connectResult s (connectCalls s + j)"
    "connectResult s (connectCalls s + k)" by blast
  let ?pre = "[SerialOut ''Connecting to MQTT broker ('', SerialOut MQTTBrokerIP,
                 SerialOut '')...''] @
                concat (replicate k
                  [MqttConnect MQTTClientID MQTTBrokerUsername MQTTBrokerPassword False,
                   Delay 1000, SerialOut ''.'']) @
                [MqttConnect MQTTClientID MQTTBrokerUsername MQTTBrokerPassword True,
                 SerialOut (''connected.'' @ [CHR 0x0D, CHR 0x0A])]"
  from connectMQTTBroker_after [OF assms k] c have t1: "trace s1 = trace s @ ?pre" by auto
  let ?ok = "subscribeResult s1 (subscribeCalls s1)"
  let ?sub = "[MqttSubscribe (MQTTClientID @ ''/command/#'') 1 ?ok,
                 SerialOut (if ?ok then ''Subscribed to topic: ''
                            else ''ERROR: Unable to subscribe to topic: ''),
                 SerialOut ((MQTTClientID @ ''/command/#'') @ [CHR 0x0D, CHR 0x0A])]"
  let ?s2 = "mqttSubscribeToCommands s1"
  have t2: "trace ?s2 = trace s @ ?pre @ ?sub"
    by (simp add: mqttSubscribeToCommands_eq t1)
  from trace_grows_pump [of ?s2]
  have "\<exists>es. trace (world_of (mqttClient_loop ?s2)) = (trace ?s2 @ [MqttLoop]) @ es" by simp
  then have "\<exists>es. trace (world_of r) = (trace ?s2 @ [MqttLoop]) @ es"
    unfolding r1 by (rule trace_grows_andThen) (rule trace_grows_check)
  then obtain rest where "trace (world_of r) = (trace ?s2 @ [MqttLoop]) @ rest" by blast
  then have "trace (world_of r) = trace s @
                [SerialOut ''Connecting to MQTT broker ('', SerialOut MQTTBrokerIP,
                 SerialOut '')...''] @
                concat (replicate k
                  [MqttConnect MQTTClientID MQTTBrokerUsername MQTTBrokerPassword False,
                   Delay 1000, SerialOut ''.'']) @
                [MqttConnect MQTTClientID MQTTBrokerUsername MQTTBrokerPassword True,
                 SerialOut (''connected.'' @ [CHR 0x0D, CHR 0x0A]),
                 MqttSubscribe (MQTTClientID @ ''/command/#'') 1 ?ok,
                 SerialOut (if ?ok then ''Subscribed to topic: ''
                            else ''ERROR: Unable to subscribe to topic: ''),
                 SerialOut ((MQTTClientID @ ''/command/#'') @ [CHR 0x0D, CHR 0x0A]),
                 MqttLoop] @ rest"
    by (simp only: t2) simp
  with k show "\<exists>k ok rest.
            (\<forall>j<k. \<not> connectResult s (connectCalls s + j))
            \<and> connectResult s (connectCalls s + k)
            \<and> trace (world_of r) = trace s @
                [SerialOut ''Connecting to MQTT broker ('', SerialOut MQTTBrokerIP,
                 SerialOut '')...''] @
                concat (replicate k
                  [MqttConnect MQTTClientID MQTTBrokerUsername MQTTBrokerPassword False,
                   Delay 1000, SerialOut ''.'']) @
                [MqttConnect MQTTClientID MQTTBrokerUsername MQTTBrokerPassword True,
                 SerialOut (''connected.'' @ [CHR 0x0D, CHR 0x0A]),
                 MqttSubscribe (MQTTClientID @ ''/command/#'') 1 ok,
                 SerialOut (if ok then ''Subscribed to topic: ''
                            else ''ERROR: Unable to subscribe to topic: ''),
                 SerialOut ((MQTTClientID @ ''/command/#'') @ [CHR 0x0D, CHR 0x0A]),
                 MqttLoop] @ rest"
    by blast
qed

lemma connect_demo: "connectMQTTBroker demo = Some demo_connected"
proof -
  have a: "\<not> brokerLink demo" by (simp add: demo_def)
  have b: "\<forall>j<1. \<not> connectResult demo (connectCalls demo + j)" by (simp add: demo_def)
  have c: "connectResult demo (connectCalls demo + 1)" by (simp add: demo_def)
  show ?thesis
    unfolding connectMQTTBroker_after [OF a b c]
    by (simp add: demo_connected_def demo_def secrets)
qed

lemma pump_demo:
  "mqttClient_loop (mqttSubscribeToCommands demo_connected) =
     Returns (demo_connected\<lparr>publishCalls := 1, subscribeCalls := 1, pumpCalls := 1,
       trace := trace demo_connected @
       [MqttSubscribe ''Arduino/command/#'' 1 True,
        SerialOut ''Subscribed to topic: '',
        SerialOut (''Arduino/command/#'' @ [CHR 0x0D, CHR 0x0A]),
        MqttLoop,
        SerialOut ''Command received: '', SerialOut ''Arduino/command/LED'', SerialOut '' '',
        SerialOut (''get'' @ [CHR 0x0D, CHR 0x0A]),
        MqttPublish ''Arduino/status/LED'' ''off'' True True,
        SerialOut ''Status published: '', SerialOut ''Arduino/status/LED'', SerialOut '' '',
        SerialOut (''off'' @ [CHR 0x0D, CHR 0x0A])]\<rparr>)"
  by (simp add: mqttSubscribeToCommands_eq mqttClient_loop_def emit_def mqttCommandReceived_def
      strcmp_zero_iff cstr_Nil cstr_Cons mqttPublishLEDStatus_eq prims demo_connected_def demo_def
      secrets LOW_def HIGH_def)

lemma loop_demo: "loop demo = Some (Returns demo_looped)"
proof -
  have a: "\<not> brokerLink demo" by (simp add: demo_def)
  have "loop demo = Some (andThen (mqttClient_loop (mqttSubscribeToCommands demo_connected))
      mqttCheckAndReportStatus)"
    by (simp add: loop_unfold [OF a] connect_demo)
  also have "\<dots> = Some (Returns demo_looped)"
    unfolding pump_demo
    by (simp add: check_unfold mqttPublishA0Status_fits mqttPublishLEDStatus_eq demo_looped_def
        demo_connected_def demo_def itoa_examples secrets LOW_def HIGH_def)
  finally show ?thesis .
qed

text \<open>One iteration on the demo board, which starts disconnected.\<close>

theorem C6_resubscribe_before_pump_witness:
  "\<not> brokerLink demo
   \<and> connectResult demo (connectCalls demo + 1)
   \<and> loop demo = Some (Returns demo_looped)
   \<and> (\<exists>k ok rest.
        (\<forall>j<k. \<not> connectResult demo (connectCalls demo + j))
        \<and> connectResult demo (connectCalls demo + k)
        \<and> trace demo_looped = trace demo @
            [SerialOut ''Connecting to MQTT broker ('', SerialOut MQTTBrokerIP,
             SerialOut '')...''] @
            concat (replicate k
              [MqttConnect MQTTClientID MQTTBrokerUsername MQTTBrokerPassword False,
               Delay 1000, SerialOut ''.'']) @
            [MqttConnect MQTTClientID MQTTBrokerUsername MQTTBrokerPassword True,
             SerialOut (''connected.'' @ [CHR 0x0D, CHR 0x0A]),
             MqttSubscribe (MQTTClientID @ ''/command/#'') 1 ok,
             SerialOut (if ok then ''Subscribed to topic: ''
                        else ''ERROR: Unable to subscribe to topic: ''),
             SerialOut ((MQTTClientID @ ''/command/#'') @ [CHR 0x0D, CHR 0x0A]),
             MqttLoop] @ rest)"
proof -
  have a: "\<not> brokerLink demo" by (simp add: demo_def)
  have b: "connectResult demo (connectCalls demo + 1)" by (simp add: demo_def)
  from C6_resubscribe_before_pump [OF a] loop_demo
  have "\<exists>k ok rest.
        (\<forall>j<k. \<not> connectResult demo (connectCalls demo + j))
        \<and> connectResult demo (connectCalls demo + k)
        \<and> trace (world_of (Returns demo_looped)) = trace demo @
            [SerialOut ''Connecting to MQTT broker ('', SerialOut MQTTBrokerIP,
             SerialOut '')...''] @
            concat (replicate k
              [MqttConnect MQTTClientID MQTTBrokerUsername MQTTBrokerPassword False,
               Delay 1000, SerialOut ''.'']) @
            [MqttConnect MQTTClientID MQTTBrokerUsername MQTTBrokerPassword True,
             SerialOut (''connected.'' @ [CHR 0x0D, CHR 0x0A]),
             MqttSubscribe (MQTTClientID @ ''/command/#'') 1 ok,
             SerialOut (if ok then ''Subscribed to topic: ''
                        else ''ERROR: Unable to subscribe to topic: ''),
             SerialOut ((MQTTClientID @ ''/command/#'') @ [CHR 0x0D, CHR 0x0A]),
             MqttLoop] @ rest"
    by blast
  with a b loop_demo show ?thesis by simp
qed

section \<open>The cached values and the last successful publish\<close>

lemma last_published_append:
  "last_published t (xs @ ys) =
     (case last_published t ys of Some p \<Rightarrow> Some p | None \<Rightarrow> last_published t xs)"
  by (induction xs) (auto split: option.splits)

lemma last_published_filter:
  "last_published t (filter is_publish tr) = last_published t tr"
proof (induction tr)
  case Nil
  show ?case by simp
next
  case (Cons e tr)
  then show ?case by (cases e) (simp_all split: option.split)
qed

lemma cache_inv_alt:
  "cache_inv s \<longleftrightarrow>
     (last_published (MQTTClientID @ ''/status/A0'') (trace s) = None \<and> previousA0Value s = 0
      \<or> last_published (MQTTClientID @ ''/status/A0'') (trace s) =
           Some (itoa (previousA0Value s)))
   \<and> (last_published (MQTTClientID @ ''/status/LED'') (trace s) = None
         \<and> previousLEDValue s = LOW
      \<or> last_published (MQTTClientID @ ''/status/LED'') (trace s) = Some ''on''
         \<and> previousLEDValue s = HIGH
      \<or> last_published (MQTTClientID @ ''/status/LED'') (trace s) = Some ''off''
         \<and> previousLEDValue s = LOW)"
  by (auto simp: cache_inv_def split: option.splits)

lemma cache_inv_view:
  assumes "cache_inv s" and "cache_view s' = cache_view s"
  shows "cache_inv s'"
proof -
  from assms(2) have eqs: "previousA0Value s' = previousA0Value s"
    "previousLEDValue s' = previousLEDValue s"
    "filter is_publish (trace s') = filter is_publish (trace s)"
    by (simp_all add: cache_view_def)
  have "last_published t (trace s') = last_published t (trace s)" for t
    using eqs(3) by (metis last_published_filter)
  with assms(1) eqs(1,2) show ?thesis by (simp add: cache_inv_alt)
qed

lemma last_published_publish:
  assumes "filter is_publish tr' = filter is_publish tr @ [MqttPublish t p r ok]"
  shows "last_published u tr' = (if t = u \<and> ok then Some p else last_published u tr)"
proof -
  have "last_published u tr' = last_published u (filter is_publish tr')"
    by (simp only: last_published_filter)
  also have "\<dots> = (if t = u \<and> ok then Some p else last_published u (filter is_publish tr))"
    by (simp only: assms last_published_append) simp
  finally show ?thesis by (simp only: last_published_filter)
qed

lemma cache_inv_after_publish:
  assumes "cache_inv s"
    and "filter is_publish (trace s') = filter is_publish (trace s) @ [MqttPublish t p r ok]"
    and "t = MQTTClientID @ ''/status/A0'' \<and> previousLEDValue s' = previousLEDValue s
          \<and> (if ok then p = itoa (previousA0Value s')
              else previousA0Value s' = previousA0Value s)
       \<or> t = MQTTClientID @ ''/status/LED'' \<and> previousA0Value s' = previousA0Value s
          \<and> (if ok then p = ''on'' \<and> previousLEDValue s' = HIGH
                       \<or> p = ''off'' \<and> previousLEDValue s' = LOW
              else previousLEDValue s' = previousLEDValue s)"
  shows "cache_inv s'"
proof -
  note lp = last_published_publish [OF assms(2)]
  from assms(3) show ?thesis
  proof (elim disjE conjE)
    assume t: "t = MQTTClientID @ ''/status/A0''"
      and led: "previousLEDValue s' = previousLEDValue s"
      and a0: "if ok then p = itoa (previousA0Value s')
               else previousA0Value s' = previousA0Value s"
    have "last_published (MQTTClientID @ ''/status/LED'') (trace s') =
        last_published (MQTTClientID @ ''/status/LED'') (trace s)"
      by (simp add: lp t)
    moreover have "last_published (MQTTClientID @ ''/status/A0'') (trace s') =
        (if ok then Some p else last_published (MQTTClientID @ ''/status/A0'') (trace s))"
      by (simp add: lp t)
    ultimately show ?thesis
      using assms(1) led a0 by (cases ok) (simp_all add: cache_inv_alt)
  next
    assume t: "t = MQTTClientID @ ''/status/LED''"
      and a0: "previousA0Value s' = previousA0Value s"
      and led: "if ok then p = ''on'' \<and> previousLEDValue s' = HIGH
                       \<or> p = ''off'' \<and> previousLEDValue s' = LOW
              else previousLEDValue s' = previousLEDValue s"
    have "last_published (MQTTClientID @ ''/status/A0'') (trace s') =
        last_published (MQTTClientID @ ''/status/A0'') (trace s)"
      by (simp add: lp t)
    moreover have "last_published (MQTTClientID @ ''/status/LED'') (trace s') =
        (if ok then Some p else last_published (MQTTClientID @ ''/status/LED'') (trace s))"
      by (simp add: lp t)
    ultimately show ?thesis
      using assms(1) led a0 by (cases ok) (auto simp add: cache_inv_alt)
  qed
qed

lemma cache_inv_A0:
  assumes "cache_inv s"
  shows "cache_inv (world_of (mqttPublishA0Status s))"
proof (cases "- 999 \<le> a0Sample s (a0Reads s) \<and> a0Sample s (a0Reads s) \<le> 9999")
  case True
  let ?s' = "world_of (mqttPublishA0Status s)"
  let ?ok = "publishResult s (publishCalls s)"
  let ?v = "a0Sample s (a0Reads s)"
  have eq: "mqttPublishA0Status s = Returns (if ?ok then
      s\<lparr>previousA0Value := ?v,
        publishCalls := Suc (publishCalls s), a0Reads := Suc (a0Reads s),
        trace := trace s @
          [MqttPublish (MQTTClientID @ ''/status/A0'') (itoa ?v) True True,
           SerialOut ''Status published: '', SerialOut (MQTTClientID @ ''/status/A0''),
           SerialOut '' '', SerialOut (itoa ?v @ [CHR 0x0D, CHR 0x0A])]\<rparr>
     else
      s\<lparr>publishCalls := Suc (publishCalls s), a0Reads := Suc (a0Reads s),
        trace := trace s @
          [MqttPublish (MQTTClientID @ ''/status/A0'') (itoa ?v) True False,
           SerialOut (''ERROR: Unable to publish A0 status.'' @ [CHR 0x0D, CHR 0x0A])]\<rparr>)"
    using True by (intro mqttPublishA0Status_fits) simp_all
  have a: "filter is_publish (trace ?s') = filter is_publish (trace s) @
      [MqttPublish (MQTTClientID @ ''/status/A0'') (itoa ?v) True ?ok]"
    by (simp only: eq world_of.simps) simp
  have b: "previousLEDValue ?s' = previousLEDValue s"
    by (simp only: eq world_of.simps) simp
  have c: "if ?ok then itoa ?v = itoa (previousA0Value ?s')
           else previousA0Value ?s' = previousA0Value s"
    by (simp only: eq world_of.simps) simp
  show ?thesis
    by (rule cache_inv_after_publish [OF assms a]) (use b c in blast)
next
  case False
  have "cache_view (s\<lparr>a0Reads := Suc (a0Reads s)\<rparr>) = cache_view s"
    by (simp add: cache_view_def)
  with assms have "cache_inv (s\<lparr>a0Reads := Suc (a0Reads s)\<rparr>)"
    by (rule cache_inv_view)
  with False show ?thesis
    by (simp add: mqttPublishA0Status_overrun)
qed

lemma cache_inv_LED:
  assumes "cache_inv s"
  shows "cache_inv (world_of (mqttPublishLEDStatus s))"
proof -
  let ?s' = "world_of (mqttPublishLEDStatus s)"
  let ?ok = "publishResult s (publishCalls s)"
  let ?p = "if ledPin s then ''on'' else ''off''"
  have a: "filter is_publish (trace ?s') = filter is_publish (trace s) @
      [MqttPublish (MQTTClientID @ ''/status/LED'') ?p True ?ok]"
    by (simp only: mqttPublishLEDStatus_eq world_of.simps) simp
  have b: "previousA0Value ?s' = previousA0Value s"
    by (simp only: mqttPublishLEDStatus_eq world_of.simps) simp
  have c: "if ?ok then ?p = ''on'' \<and> previousLEDValue ?s' = HIGH
                       \<or> ?p = ''off'' \<and> previousLEDValue ?s' = LOW
           else previousLEDValue ?s' = previousLEDValue s"
    by (simp only: mqttPublishLEDStatus_eq world_of.simps) simp
  show ?thesis
    by (rule cache_inv_after_publish [OF assms a]) (use b c in blast)
qed

lemma cache_inv_andThen:
  assumes "cache_inv (world_of x)"
    and "\<And>w. cache_inv w \<Longrightarrow> cache_inv (world_of (f w))"
  shows "cache_inv (world_of (andThen x f))"
  using assms by (cases x) simp_all

lemma cache_inv_command:
  assumes "cache_inv s"
  shows "cache_inv (world_of (mqttCommandReceived topic payload s))"
proof -
  let ?s1 = "s\<lparr>trace := trace s @
        [SerialOut ''Command received: '', SerialOut (cstr topic), SerialOut '' '',
         SerialOut (cstr payload @ [CHR 0x0D, CHR 0x0A])]\<rparr>"
  let ?on = "?s1\<lparr>ledPin := True, trace := trace ?s1 @
        [DigitalWrite HIGH, SerialOut (''Turned on LED.'' @ [CHR 0x0D, CHR 0x0A])]\<rparr>"
  let ?off = "?s1\<lparr>ledPin := False, trace := trace ?s1 @
        [DigitalWrite LOW, SerialOut (''Turned off LED.'' @ [CHR 0x0D, CHR 0x0A])]\<rparr>"
  let ?unk = "?s1\<lparr>trace := trace ?s1 @
        [SerialOut (''ERROR: Unknown command.'' @ [CHR 0x0D, CHR 0x0A])]\<rparr>"
  have alt: "mqttCommandReceived topic payload s = mqttPublishA0Status ?s1
      \<or> mqttCommandReceived topic payload s = mqttPublishLEDStatus ?s1
      \<or> mqttCommandReceived topic payload s = mqttPublishLEDStatus ?on
      \<or> mqttCommandReceived topic payload s = mqttPublishLEDStatus ?off
      \<or> mqttCommandReceived topic payload s = Returns ?unk"
    by (simp add: mqttCommandReceived_def prims cstr_append_NUL cstr_Nil cstr_Cons HIGH_def LOW_def)
  have v: "cache_view ?s1 = cache_view s" "cache_view ?on = cache_view s"
    "cache_view ?off = cache_view s" "cache_view ?unk = cache_view s"
    by (simp_all add: cache_view_def)
  have inv: "cache_inv ?s1" "cache_inv ?on" "cache_inv ?off" "cache_inv ?unk"
    by (rule cache_inv_view [OF assms v(1)], rule cache_inv_view [OF assms v(2)],
        rule cache_inv_view [OF assms v(3)], rule cache_inv_view [OF assms v(4)])
  from alt show ?thesis
  proof (elim disjE)
    assume "mqttCommandReceived topic payload s = mqttPublishA0Status ?s1"
    then show ?thesis using cache_inv_A0 [OF inv(1)] by simp
  next
    assume "mqttCommandReceived topic payload s = mqttPublishLEDStatus ?s1"
    then show ?thesis using cache_inv_LED [OF inv(1)] by simp
  next
    assume "mqttCommandReceived topic payload s = mqttPublishLEDStatus ?on"
    then show ?thesis using cache_inv_LED [OF inv(2)] by simp
  next
    assume "mqttCommandReceived topic payload s = mqttPublishLEDStatus ?off"
    then show ?thesis using cache_inv_LED [OF inv(3)] by simp
  next
    assume "mqttCommandReceived topic payload s = Returns ?unk"
    then show ?thesis using inv(4) by simp
  qed
qed

lemma cache_inv_check:
  assumes "cache_inv s"
  shows "cache_inv (world_of (mqttCheckAndReportStatus s))"
  unfolding check_unfold
proof (rule cache_inv_andThen)
  have "cache_view (s\<lparr>a0Reads := Suc (a0Reads s)\<rparr>) = cache_view s"
    by (simp add: cache_view_def)
  with assms have a: "cache_inv (s\<lparr>a0Reads := Suc (a0Reads s)\<rparr>)"
    by (rule cache_inv_view)
  show "cache_inv (world_of
      (if 100 < \<bar>a0Sample s (a0Reads s) - previousA0Value s\<bar>
       then mqttPublishA0Status (s\<lparr>a0Reads := Suc (a0Reads s)\<rparr>)
       else Returns (s\<lparr>a0Reads := Suc (a0Reads s)\<rparr>)))"
    using a cache_inv_A0 [OF a] by simp
next
  fix w assume "cache_inv w"
  then show "cache_inv (world_of
      (if (if ledPin w then HIGH else LOW) \<noteq> previousLEDValue w
       then mqttPublishLEDStatus w else Returns w))"
    using cache_inv_LED [of w] by simp
qed

lemma cache_inv_pump:
  assumes "cache_inv s"
  shows "cache_inv (world_of (mqttClient_loop s))"
proof (cases "brokerLink s")
  case False
  have "cache_view (emit MqttLoop s) = cache_view s" by (simp add: cache_view_def emit_def)
  with assms have "cache_inv (emit MqttLoop s)" by (rule cache_inv_view)
  with False show ?thesis by (simp add: mqttClient_loop_def Let_def emit_def)
next
  case True
  let ?s1 = "s\<lparr>trace := trace s @ [MqttLoop], pumpCalls := Suc (pumpCalls s)\<rparr>"
  have u: "mqttClient_loop s =
      andThen (case inbound s (pumpCalls s) of
                 None \<Rightarrow> Returns ?s1
               | Some (topic, payload) \<Rightarrow> mqttCommandReceived topic payload ?s1)
        (\<lambda>s2. Returns (s2\<lparr>brokerLink := \<not> linkLost s2 (pumpCalls s)\<rparr>))"
    using True by (simp add: mqttClient_loop_def emit_def Let_def)
  have "cache_view ?s1 = cache_view s" by (simp add: cache_view_def)
  with assms have s1: "cache_inv ?s1" by (rule cache_inv_view)
  show ?thesis
    unfolding u
  proof (rule cache_inv_andThen)
    show "cache_inv (world_of (case inbound s (pumpCalls s) of
                 None \<Rightarrow> Returns ?s1
               | Some (topic, payload) \<Rightarrow> mqttCommandReceived topic payload ?s1))"
    proof (cases "inbound s (pumpCalls s)")
      case None
      with s1 show ?thesis by simp
    next
      case (Some m)
      obtain topic payload where "m = (topic, payload)" by (cases m)
      with Some cache_inv_command [OF s1, of topic payload] show ?thesis by simp
    qed
  next
    fix w assume w: "cache_inv w"
    have "cache_view (w\<lparr>brokerLink := \<not> linkLost w (pumpCalls s)\<rparr>) = cache_view w"
      by (simp add: cache_view_def)
    with w have "cache_inv (w\<lparr>brokerLink := \<not> linkLost w (pumpCalls s)\<rparr>)"
      by (rule cache_inv_view)
    then show "cache_inv (world_of (Returns (w\<lparr>brokerLink := \<not> linkLost w (pumpCalls s)\<rparr>)))"
      by simp
  qed
qed

lemma cache_view_subscribe: "cache_view (mqttSubscribeToCommands s) = cache_view s"
  by (simp add: mqttSubscribeToCommands_eq cache_view_def)

lemma connect_while_view:
  assumes "connectMQTTBroker_while s = Some s'"
  shows "cache_view s' = cache_view s"
proof (rule connectMQTTBroker_while.raw_induct
    [where P = "\<lambda>s s'. cache_view s' = cache_view s" and s = s and y = s'])
  show "connectMQTTBroker_while s = Some s'" by (rule assms)
next
  fix loop :: "world \<Rightarrow> world option" and s s'
  assume IH: "\<And>x y. loop x = Some y \<Longrightarrow> cache_view y = cache_view x"
  assume body: "(if \<not> mqttClient_connected s then
        (if fst (mqttClient_connect MQTTClientID MQTTBrokerUsername MQTTBrokerPassword s) then
           loop
             ((if DEBUG then Serial_println ''connected.'' else id)
                (snd (mqttClient_connect MQTTClientID MQTTBrokerUsername MQTTBrokerPassword s)))
         else
           loop
             ((if DEBUG then Serial_print ''.'' else id)
                (delay 1000
                   (snd (mqttClient_connect MQTTClientID MQTTBrokerUsername MQTTBrokerPassword s)))))
      else Some s) = Some s'"
  let ?ok = "s\<lparr>connectCalls := Suc (connectCalls s), brokerLink := True,
      trace := trace s @
        [MqttConnect MQTTClientID MQTTBrokerUsername MQTTBrokerPassword True,
         SerialOut (''connected.'' @ [CHR 0x0D, CHR 0x0A])]\<rparr>"
  let ?no = "s\<lparr>connectCalls := Suc (connectCalls s), brokerLink := False,
      trace := trace s @
        [MqttConnect MQTTClientID MQTTBrokerUsername MQTTBrokerPassword False,
         Delay 1000, SerialOut ''.'']\<rparr>"
  have v: "cache_view ?ok = cache_view s" "cache_view ?no = cache_view s"
    by (simp_all add: cache_view_def)
  from body have "s' = s \<or> loop ?ok = Some s' \<or> loop ?no = Some s'"
    by (simp add: mqttClient_connected_def mqttClient_connect_def prims delay_def cstr_Nil
        cstr_Cons split: if_splits)
  then show "cache_view s' = cache_view s"
    using IH [of ?ok s'] IH [of ?no s'] v by auto
qed

lemma serial_while_view:
  assumes "configureSerialMonitor_while s = Some s'"
  shows "cache_view s' = cache_view s"
proof (rule configureSerialMonitor_while.raw_induct
    [where P = "\<lambda>s s'. cache_view s' = cache_view s" and s = s and y = s'])
  show "configureSerialMonitor_while s = Some s'" by (rule assms)
next
  fix loop :: "world \<Rightarrow> world option" and s s'
  assume IH: "\<And>x y. loop x = Some y \<Longrightarrow> cache_view y = cache_view x"
  assume body: "(if \<not> serialReady s (serialPolls s)
      then loop (s\<lparr>serialPolls := Suc (serialPolls s)\<rparr>)
      else Some (s\<lparr>serialPolls := Suc (serialPolls s)\<rparr>)) = Some s'"
  let ?s1 = "s\<lparr>serialPolls := Suc (serialPolls s)\<rparr>"
  have v: "cache_view ?s1 = cache_view s" by (simp add: cache_view_def)
  from body have "s' = ?s1 \<or> loop ?s1 = Some s'" by (simp split: if_splits)
  then show "cache_view s' = cache_view s"
    using IH [of ?s1 s'] v by auto
qed

lemma wifi_while_view:
  assumes "connectWiFiNetwork_while s = Some s'"
  shows "cache_view s' = cache_view s"
proof (rule connectWiFiNetwork_while.raw_induct
    [where P = "\<lambda>s s'. cache_view s' = cache_view s" and s = s and y = s'])
  show "connectWiFiNetwork_while s = Some s'" by (rule assms)
next
  fix loop :: "world \<Rightarrow> world option" and s s'
  assume IH: "\<And>x y. loop x = Some y \<Longrightarrow> cache_view y = cache_view x"
  assume body: "(if fst (WiFi_status s) \<noteq> WL_CONNECTED then
        loop ((if DEBUG then Serial_print ''.'' else id) (delay 1000 (snd (WiFi_status s))))
      else Some (snd (WiFi_status s))) = Some s'"
  let ?s1 = "s\<lparr>wifiPolls := Suc (wifiPolls s)\<rparr>"
  let ?s2 = "s\<lparr>wifiPolls := Suc (wifiPolls s),
       trace := trace s @ [Delay 1000, SerialOut ''.'']\<rparr>"
  have v: "cache_view ?s1 = cache_view s" "cache_view ?s2 = cache_view s"
    by (simp_all add: cache_view_def)
  from body have "s' = ?s1 \<or> loop ?s2 = Some s'"
    by (simp add: WiFi_status_def prims delay_def cstr_Nil cstr_Cons split: if_splits)
  then show "cache_view s' = cache_view s"
    using IH [of ?s2 s'] v by auto
qed

lemma connectMQTTBroker_view:
  assumes "connectMQTTBroker s = Some s'"
  shows "cache_view s' = cache_view s"
proof -
  from assms have "connectMQTTBroker_while (s\<lparr>trace := trace s @
       [SerialOut ''Connecting to MQTT broker ('', SerialOut MQTTBrokerIP, SerialOut '')...'']\<rparr>)
      = Some s'"
    by (simp only: connectMQTTBroker_unfold)
  from connect_while_view [OF this] show ?thesis by (simp add: cache_view_def)
qed

lemma connectWiFiNetwork_view:
  assumes "connectWiFiNetwork s = Some r"
  shows "cache_view (world_of r) = cache_view s"
proof (cases "wifiStatus s (wifiPolls s) = WL_NO_MODULE")
  case True
  from connectWiFiNetwork_no_module [OF True] assms show ?thesis
    by (auto simp: cache_view_def)
next
  case False
  let ?s4 = "s\<lparr>wifiPolls := Suc (wifiPolls s),
      trace := trace s @
        (SerialOut (''WiFi module found.'' @ [CHR 0x0D, CHR 0x0A]) #
         (if firmwareOld s
          then [SerialOut (''Please upgrade the WiFi module firmware.'' @ [CHR 0x0D, CHR 0x0A])]
          else []) @
         [SerialOut ''Connecting to WiFi network ('', SerialOut WiFiSSID, SerialOut '')...'',
          WiFiBegin WiFiSSID WiFiPassword])\<rparr>"
  have u: "connectWiFiNetwork s =
      (case connectWiFiNetwork_while ?s4 of
         None \<Rightarrow> None
       | Some s5 \<Rightarrow> Some (Returns (s5\<lparr>trace := trace s5 @
           [SerialOut (''connected.'' @ [CHR 0x0D, CHR 0x0A])]\<rparr>)))"
    using False
    by (simp add: connectWiFiNetwork_def WiFi_status_def WiFi_begin_def prims cstr_Nil cstr_Cons
        WiFiSSID_def WIFI_SSID_def WiFiPassword_def WIFI_PASSWORD_def split: option.split)
  from assms obtain s5 where w: "connectWiFiNetwork_while ?s4 = Some s5"
    and r: "r = Returns (s5\<lparr>trace := trace s5 @
           [SerialOut (''connected.'' @ [CHR 0x0D, CHR 0x0A])]\<rparr>)"
    by (auto simp: u split: option.splits)
  have "cache_view ?s4 = cache_view s" by (simp add: cache_view_def)
  with wifi_while_view [OF w] have "cache_view s5 = cache_view s" by simp
  then show ?thesis by (simp add: r cache_view_def)
qed

lemma cache_inv_setup:
  assumes "cache_inv s" and "setup_ino s = Some r"
  shows "cache_inv (world_of r)"
proof -
  let ?s0 = "s\<lparr>trace := trace s @ [PinModeOutput, SerialBegin 9600]\<rparr>"
  from assms(2) obtain s2 where a: "configureSerialMonitor_while ?s0 = Some s2"
    by (auto simp: setup_unfold split: option.splits)
  let ?s2 = "s2\<lparr>trace := trace s2 @ [SetServer MQTTBrokerIP MQTTBrokerPort, SetCallback]\<rparr>"
  from assms(2) a have b: "andThenO (connectWiFiNetwork ?s2)
            (\<lambda>s3. case connectMQTTBroker s3 of
                     None \<Rightarrow> None
                   | Some s4 \<Rightarrow>
                       Some (andThen (andThen (mqttPublishA0Status s4) mqttPublishLEDStatus)
                               (\<lambda>s5. Returns (mqttSubscribeToCommands s5)))) = Some r"
    by (simp add: setup_unfold)
  have "cache_view ?s0 = cache_view s" by (simp add: cache_view_def)
  with serial_while_view [OF a] have "cache_view s2 = cache_view s" by simp
  then have v2: "cache_view ?s2 = cache_view s" by (simp add: cache_view_def)
  from b obtain w where w: "connectWiFiNetwork ?s2 = Some w"
    by (cases "connectWiFiNetwork ?s2") auto
  from connectWiFiNetwork_view [OF w] v2 have vw: "cache_view (world_of w) = cache_view s"
    by simp
  show ?thesis
  proof (cases w)
    case (Returns s3)
    with b w obtain s4 where c: "connectMQTTBroker s3 = Some s4"
      and r: "r = andThen (andThen (mqttPublishA0Status s4) mqttPublishLEDStatus)
                               (\<lambda>s5. Returns (mqttSubscribeToCommands s5))"
      by (auto split: option.splits)
    from connectMQTTBroker_view [OF c] vw Returns have "cache_view s4 = cache_view s" by simp
    with assms(1) have i4: "cache_inv s4" by (rule cache_inv_view)
    show ?thesis
      unfolding r
    proof (rule cache_inv_andThen)
      show "cache_inv (world_of (andThen (mqttPublishA0Status s4) mqttPublishLEDStatus))"
        by (rule cache_inv_andThen) (rule cache_inv_A0 [OF i4], rule cache_inv_LED)
    next
      fix w assume "cache_inv w"
      then have "cache_inv (mqttSubscribeToCommands w)"
        by (rule cache_inv_view) (rule cache_view_subscribe)
      then show "cache_inv (world_of (Returns (mqttSubscribeToCommands w)))" by simp
    qed
  next
    case (Halts s3)
    with b w have "r = Halts s3" by simp
    moreover from vw Halts have "cache_view s3 = cache_view s" by simp
    with assms(1) have "cache_inv s3" by (rule cache_inv_view)
    ultimately show ?thesis by simp
  next
    case (Overrun s3)
    with b w have "r = Overrun s3" by simp
    moreover from vw Overrun have "cache_view s3 = cache_view s" by simp
    with assms(1) have "cache_inv s3" by (rule cache_inv_view)
    ultimately show ?thesis by simp
  qed
qed

lemma cache_inv_loop:
  assumes "cache_inv s" and "loop s = Some r"
  shows "cache_inv (world_of r)"
proof -
  from assms(2) obtain s1 where
    a: "s1 = s \<or> (\<exists>s0. connectMQTTBroker s = Some s0 \<and> s1 = mqttSubscribeToCommands s0)"
    and r: "r = andThen (mqttClient_loop s1) mqttCheckAndReportStatus"
    by (auto simp: loop_def split: option.splits if_splits)
  from a have "cache_view s1 = cache_view s"
    using connectMQTTBroker_view cache_view_subscribe by auto
  with assms(1) have "cache_inv s1" by (rule cache_inv_view)
  then show ?thesis
    unfolding r
    by (intro cache_inv_andThen cache_inv_pump cache_inv_check)
qed

lemma serial_demo:
  "configureSerialMonitor_while (demo\<lparr>trace := trace demo @ [PinModeOutput, SerialBegin 9600]\<rparr>)
     = Some (demo\<lparr>serialPolls := 2, trace := [PinModeOutput, SerialBegin 9600]\<rparr>)"
proof -
  let ?s = "demo\<lparr>trace := trace demo @ [PinModeOutput, SerialBegin 9600]\<rparr>"
  have b: "\<forall>j<1. \<not> serialReady ?s (serialPolls ?s + j)" by (simp add: demo_def)
  have c: "serialReady ?s (serialPolls ?s + 1)" by (simp add: demo_def)
  show ?thesis
    unfolding serial_while_after [OF b c] by (simp add: demo_def)
qed

lemma wifi_demo:
  "connectWiFiNetwork (demo\<lparr>serialPolls := 2,
       trace := [PinModeOutput, SerialBegin 9600, SetServer MQTTBrokerIP MQTTBrokerPort,
                 SetCallback]\<rparr>)
     = Some (Returns demo_wifi)"
proof -
  let ?s = "demo\<lparr>serialPolls := 2,
       trace := [PinModeOutput, SerialBegin 9600, SetServer MQTTBrokerIP MQTTBrokerPort,
                 SetCallback]\<rparr>"
  let ?s4 = "?s\<lparr>wifiPolls := 1,
      trace := trace ?s @
        [SerialOut (''WiFi module found.'' @ [CHR 0x0D, CHR 0x0A]),
         SerialOut ''Connecting to WiFi network ('', SerialOut WiFiSSID, SerialOut '')...'',
         WiFiBegin WiFiSSID WiFiPassword]\<rparr>"
  have u: "connectWiFiNetwork ?s =
      (case connectWiFiNetwork_while ?s4 of
         None \<Rightarrow> None
       | Some s5 \<Rightarrow> Some (Returns (s5\<lparr>trace := trace s5 @
           [SerialOut (''connected.'' @ [CHR 0x0D, CHR 0x0A])]\<rparr>)))"
    by (simp add: connectWiFiNetwork_def WiFi_status_def WiFi_begin_def prims cstr_Nil cstr_Cons
        demo_def WiFiSSID_def WIFI_SSID_def WiFiPassword_def WIFI_PASSWORD_def
        split: option.split)
  have b: "\<forall>j<1. wifiStatus ?s4 (wifiPolls ?s4 + j) \<noteq> WL_CONNECTED" by (simp add: demo_def)
  have c: "wifiStatus ?s4 (wifiPolls ?s4 + 1) = WL_CONNECTED" by (simp add: demo_def)
  show ?thesis
    unfolding u wifi_while_after [OF b c]
    by (simp add: demo_wifi_def demo_def secrets)
qed

lemma connect_demo_wifi:
  "connectMQTTBroker demo_wifi =
     Some (demo_wifi\<lparr>brokerLink := True, connectCalls := 2,
       trace := trace demo_wifi @
         [SerialOut ''Connecting to MQTT broker ('', SerialOut ''000.000.000.000'',
          SerialOut '')...'',
          MqttConnect ''Arduino'' ''your_username'' ''your_password'' False,
          Delay 1000, SerialOut ''.'',
          MqttConnect ''Arduino'' ''your_username'' ''your_password'' True,
          SerialOut (''connected.'' @ [CHR 0x0D, CHR 0x0A])]\<rparr>)"
proof -
  have a: "\<not> brokerLink demo_wifi" by (simp add: demo_wifi_def demo_def)
  have b: "\<forall>j<1. \<not> connectResult demo_wifi (connectCalls demo_wifi + j)"
    by (simp add: demo_wifi_def demo_def)
  have c: "connectResult demo_wifi (connectCalls demo_wifi + 1)"
    by (simp add: demo_wifi_def demo_def)
  show ?thesis
    unfolding connectMQTTBroker_after [OF a b c]
    by (simp add: demo_wifi_def demo_def secrets)
qed

lemma setup_demo: "setup_ino demo = Some (Returns demo_booted)"
proof -
  have "setup_ino demo =
      Some (andThen (andThen (mqttPublishA0Status (demo_wifi\<lparr>brokerLink := True, connectCalls := 2,
       trace := trace demo_wifi @
         [SerialOut ''Connecting to MQTT broker ('', SerialOut ''000.000.000.000'',
          SerialOut '')...'',
          MqttConnect ''Arduino'' ''your_username'' ''your_password'' False,
          Delay 1000, SerialOut ''.'',
          MqttConnect ''Arduino'' ''your_username'' ''your_password'' True,
          SerialOut (''connected.'' @ [CHR 0x0D, CHR 0x0A])]\<rparr>)) mqttPublishLEDStatus)
              (\<lambda>s5. Returns (mqttSubscribeToCommands s5)))"
    unfolding setup_unfold serial_demo
    by (simp add: wifi_demo connect_demo_wifi)
  also have "\<dots> = Some (Returns demo_booted)"
    by (simp add: mqttPublishA0Status_fits mqttPublishLEDStatus_eq mqttSubscribeToCommands_eq
        demo_booted_def demo_wifi_def demo_def itoa_examples secrets LOW_def HIGH_def)
  finally show ?thesis .
qed

lemma loop_demo_booted: "loop demo_booted = Some (Returns demo_served)"
proof -
  have a: "brokerLink demo_booted" by (simp add: demo_booted_def)
  have "mqttClient_loop demo_booted =
     Returns (demo_booted\<lparr>publishCalls := 3, pumpCalls := 1,
       trace := trace demo_booted @
       [MqttLoop,
        SerialOut ''Command received: '', SerialOut ''Arduino/command/LED'', SerialOut '' '',
        SerialOut (''get'' @ [CHR 0x0D, CHR 0x0A]),
        MqttPublish ''Arduino/status/LED'' ''off'' True True,
        SerialOut ''Status published: '', SerialOut ''Arduino/status/LED'', SerialOut '' '',
        SerialOut (''off'' @ [CHR 0x0D, CHR 0x0A])]\<rparr>)"
    by (simp add: mqttClient_loop_def emit_def mqttCommandReceived_def
      strcmp_zero_iff cstr_Nil cstr_Cons mqttPublishLEDStatus_eq prims demo_booted_def
      demo_wifi_def demo_def secrets LOW_def HIGH_def)
  then have "loop demo_booted = Some (mqttCheckAndReportStatus
      (demo_booted\<lparr>publishCalls := 3, pumpCalls := 1,
       trace := trace demo_booted @
       [MqttLoop,
        SerialOut ''Command received: '', SerialOut ''Arduino/command/LED'', SerialOut '' '',
        SerialOut (''get'' @ [CHR 0x0D, CHR 0x0A]),
        MqttPublish ''Arduino/status/LED'' ''off'' True True,
        SerialOut ''Status published: '', SerialOut ''Arduino/status/LED'', SerialOut '' '',
        SerialOut (''off'' @ [CHR 0x0D, CHR 0x0A])]\<rparr>))"
    using a by (simp add: loop_def mqttClient_connected_def)
  also have "\<dots> = Some (Returns demo_served)"
    by (simp add: check_unfold mqttPublishLEDStatus_eq demo_served_def demo_booted_def
        demo_wifi_def demo_def LOW_def HIGH_def)
  finally show ?thesis .
qed

text \<open>
  Claim C4. \<open>cache_inv\<close> states that \<open>previousA0Value\<close> is the integer whose
  decimal rendering was the payload of the most recent successful A0 status
  publish (0 if there was none), and that \<open>previousLEDValue\<close> is the pin level
  whose rendering \<open>on\<close> or \<open>off\<close> was the payload of the most recent
  successful LED status publish (\<open>LOW\<close> if there was none). It holds after
  reset and is preserved by the two publish routines, the command callback, the
  periodic check, \<open>setup\<close> and \<open>loop\<close>. The rendering determines the
  integer.
\<close>

theorem C4_cache_reflects_last_publish:
  "(trace s = [] \<and> previousA0Value s = 0 \<and> previousLEDValue s = LOW \<longrightarrow> cache_inv s)
   \<and> (cache_inv s \<longrightarrow>
         cache_inv (world_of (mqttPublishA0Status s))
       \<and> cache_inv (world_of (mqttPublishLEDStatus s))
       \<and> cache_inv (world_of (mqttCommandReceived topic payload s))
       \<and> cache_inv (world_of (mqttCheckAndReportStatus s))
       \<and> (\<forall>r. setup_ino s = Some r \<longrightarrow> cache_inv (world_of r))
       \<and> (\<forall>r. loop s = Some r \<longrightarrow> cache_inv (world_of r)))
   \<and> (itoa a = itoa b \<longrightarrow> a = b)"
proof (intro conjI impI allI)
  assume "trace s = [] \<and> previousA0Value s = 0 \<and> previousLEDValue s = LOW"
  then show "cache_inv s" by (simp add: cache_inv_def)
next
  assume "itoa a = itoa b"
  then show "a = b" by (rule itoa_inject)
next
  assume i: "cache_inv s"
  show "cache_inv (world_of (mqttPublishA0Status s))" using i by (rule cache_inv_A0)
  show "cache_inv (world_of (mqttPublishLEDStatus s))" using i by (rule cache_inv_LED)
  show "cache_inv (world_of (mqttCommandReceived topic payload s))"
    using i by (rule cache_inv_command)
  show "cache_inv (world_of (mqttCheckAndReportStatus s))" using i by (rule cache_inv_check)
  show "cache_inv (world_of r)" if "setup_ino s = Some r" for r
    using i that by (rule cache_inv_setup)
  show "cache_inv (world_of r)" if "loop s = Some r" for r
    using i that by (rule cache_inv_loop)
qed

text \<open>
  The demo board from reset through \<open>setup\<close> (A0 512 and LED off are published)
  and one \<open>loop\<close> that serves a \<open>get\<close> for the LED.
\<close>

theorem C4_cache_reflects_last_publish_witness:
  "trace demo = [] \<and> previousA0Value demo = 0 \<and> previousLEDValue demo = LOW
   \<and> cache_inv demo
   \<and> setup_ino demo = Some (Returns demo_booted)
   \<and> cache_inv demo_booted
   \<and> last_published (MQTTClientID @ ''/status/A0'') (trace demo_booted) = Some ''512''
   \<and> previousA0Value demo_booted = 512
   \<and> last_published (MQTTClientID @ ''/status/LED'') (trace demo_booted) = Some ''off''
   \<and> previousLEDValue demo_booted = LOW
   \<and> loop demo_booted = Some (Returns demo_served)
   \<and> cache_inv demo_served
   \<and> cache_inv (world_of (mqttCheckAndReportStatus demo))
   \<and> cache_inv (world_of (mqttCommandReceived ''Arduino/command/LED'' ''on'' demo))"
proof -
  have a: "trace demo = [] \<and> previousA0Value demo = 0 \<and> previousLEDValue demo = LOW"
    by (simp add: demo_def)
  from C4_cache_reflects_last_publish [of demo] a have b: "cache_inv demo" by blast
  from C4_cache_reflects_last_publish [of demo] b setup_demo
  have c: "cache_inv (world_of (Returns demo_booted))" by blast
  from C4_cache_reflects_last_publish [of demo_booted] c loop_demo_booted
  have d: "cache_inv (world_of (Returns demo_served))" by simp
  from C4_cache_reflects_last_publish [of demo "''Arduino/command/LED''" "''on''"] b
  have e: "cache_inv (world_of (mqttCheckAndReportStatus demo))"
    "cache_inv (world_of (mqttCommandReceived ''Arduino/command/LED'' ''on'' demo))"
    by blast+
  have f: "last_published (MQTTClientID @ ''/status/A0'') (trace demo_booted) = Some ''512''"
    "last_published (MQTTClientID @ ''/status/LED'') (trace demo_booted) = Some ''off''"
    "previousA0Value demo_booted = 512" "previousLEDValue demo_booted = LOW"
    by (simp_all add: demo_booted_def demo_wifi_def demo_def MQTTClientID_def MQTT_CLIENT_ID_def)
  from a b c d e f setup_demo loop_demo_booted show ?thesis by simp
qed

end
